theory Spec2Isabelle
  imports Complex_Main
begin

section \<open>Driver safety monitor: a shallow embedding of advanced\_safety\_system.py\<close>

text \<open>
  Conventions of the embedding.
  \<^item> Python floats are modelled as \<^typ>\<open>real\<close>: comparisons against the thresholds and
    the averaging arithmetic are exact; NaN and rounding are outside the model.
  \<^item> Strings are byte strings (\<^typ>\<open>string\<close>); \<open>lower()\<close> and the whitespace of
    \<open>split()\<close> are the ASCII ones.
  \<^item> Module-level globals are the fields of the record \<open>state\<close>. Calls to the output
    ports (tone, buzzer, e-mail) are appended to the field \<open>trace\<close>, oldest first.
    Printing and drawing on the frame change no state and are left out.
  \<^item> What the hardware and the libraries deliver in one loop iteration (frame, faces with
    their EAR and MAR, tilt angle, gas reading, serial lines, clock, key, transcription,
    random sample) is the record \<open>tick_input\<close>.
  \<^item> An exception that the source catches is a branch of the function that catches it; the
    one exception nothing catches (\<open>None * 1.7\<close>) is the value \<open>Inl TypeError\<close>.
\<close>

subsection \<open>String helpers\<close>

definition lower_char :: "char \<Rightarrow> char" where
  "lower_char c =
     (if 65 \<le> (of_char c :: nat) \<and> (of_char c :: nat) \<le> 90
      then char_of ((of_char c :: nat) + 32) else c)"

definition py_lower :: "string \<Rightarrow> string" where
  "py_lower s = map lower_char s"

definition is_space :: "char \<Rightarrow> bool" where
  "is_space c =
     (let n = (of_char c :: nat) in (9 \<le> n \<and> n \<le> 13) \<or> (28 \<le> n \<and> n \<le> 32))"

text \<open>\<open>s.split()\<close>: the maximal runs of non-whitespace characters, in order.\<close>

fun split_acc :: "string \<Rightarrow> string \<Rightarrow> string list" where
  "split_acc cur [] = (if cur = [] then [] else [cur])"
| "split_acc cur (c # cs) =
     (if is_space c
      then (if cur = [] then split_acc [] cs else cur # split_acc [] cs)
      else split_acc (cur @ [c]) cs)"

definition py_split :: "string \<Rightarrow> string list" where
  "py_split s = split_acc [] s"

text \<open>\<open>s.split(',')\<close>: every separator cuts, empty fields are kept.\<close>

fun split_sep :: "char \<Rightarrow> string \<Rightarrow> string \<Rightarrow> string list" where
  "split_sep sep cur [] = [cur]"
| "split_sep sep cur (c # cs) =
     (if c = sep then cur # split_sep sep [] cs else split_sep sep (cur @ [c]) cs)"

definition split_comma :: "string \<Rightarrow> string list" where
  "split_comma s = split_sep (CHR '','') [] s"

definition startswith :: "string \<Rightarrow> string \<Rightarrow> bool" where
  "startswith s p = (take (length p) s = p)"

text \<open>\<open>' '.join(ws)\<close>\<close>

fun join_space :: "string list \<Rightarrow> string" where
  "join_space [] = []"
| "join_space [w] = w"
| "join_space (w # v # ws) = w @ '' '' @ join_space (v # ws)"

subsection \<open>Sobriety test: \<open>generate_random_text\<close> and \<open>verify_speech\<close>\<close>

definition vocabulary :: "string list" where
  "vocabulary = [''apple'', ''banana'', ''computer'', ''elephant'', ''freedom'',
                 ''guitar'', ''hospital'', ''internet'', ''jacket'', ''kitchen'']"

text \<open>
  \<open>random.sample(words, 4)\<close> is an input: any four words at distinct positions of the
  vocabulary.
\<close>

definition is_sample :: "string list \<Rightarrow> bool" where
  "is_sample ws = (length ws = 4 \<and> distinct ws \<and> set ws \<subseteq> set vocabulary)"

definition generate_random_text :: "string list \<Rightarrow> string" where
  "generate_random_text sample = join_space sample"

text \<open>
  What \<open>recognizer.listen\<close> followed by \<open>recognizer.recognize_google\<close> delivers: a
  transcript, or one of the exceptions \<open>verify_speech\<close> catches.
\<close>

datatype capture = Heard string | WaitTimeoutError | UnknownValueError | OtherError

text \<open>
  With a prompt that has no word, \<open>len(words_expected)\<close> is 0, the division raises
  \<open>ZeroDivisionError\<close>, and the last handler returns \<open>False\<close>.
\<close>

definition verify_speech :: "string \<Rightarrow> capture \<Rightarrow> bool" where
  "verify_speech expected_text cap =
     (case cap of
        Heard heard \<Rightarrow>
          (let spoken_text = py_lower heard;
               expected_lower = py_lower expected_text;
               words_expected = set (py_split expected_lower);
               words_spoken = set (py_split spoken_text)
           in if card words_expected = 0 then False
              else 0.75 \<le> real (card (words_expected \<inter> words_spoken))
                             / real (card words_expected))
      | WaitTimeoutError \<Rightarrow> False
      | UnknownValueError \<Rightarrow> False
      | OtherError \<Rightarrow> False)"

text \<open>The quantities of the specification, for comparison with the code.\<close>

definition prompt_words :: "string \<Rightarrow> string set" where
  "prompt_words p = set (py_split (py_lower p))"

definition overlap_ratio :: "string \<Rightarrow> string \<Rightarrow> real" where
  "overlap_ratio p h =
     real (card (prompt_words p \<inter> prompt_words h)) / real (card (prompt_words p))"

subsection \<open>GPS: \<open>parse_gps_data\<close>\<close>

record gps_fix =
  lat :: "real option"
  lon :: "real option"

text \<open>One \<open>gps_serial.readline()\<close>: a decoded line, or an exception of the serial port.\<close>

datatype serial_read = Line string | SerialError

text \<open>A read past the supplied lines is the timeout of the port: the empty line.\<close>

fun readline :: "serial_read list \<Rightarrow> serial_read \<times> serial_read list" where
  "readline [] = (Line [], [])"
| "readline (r # rs) = (r, rs)"

datatype sentence_result = Skip | Raised | Fix real real

text \<open>
  The body of the \<open>for\<close> loop for one line. The builtin \<open>float\<close> is the parameter
  \<open>pyfloat\<close>: \<open>None\<close> where it raises \<open>ValueError\<close>.
\<close>

definition parse_sentence :: "(string \<Rightarrow> real option) \<Rightarrow> string \<Rightarrow> sentence_result" where
  "parse_sentence pyfloat line =
     (if startswith line ''$GPGGA'' \<or> startswith line ''$GNGGA'' then
        (let parts = split_comma line in
         if length parts > 6 \<and> parts ! 2 \<noteq> [] \<and> parts ! 4 \<noteq> [] then
           (let lat_raw = parts ! 2 in
            (case pyfloat (take 2 lat_raw) of None \<Rightarrow> Raised | Some lat_deg \<Rightarrow>
            (case pyfloat (drop 2 lat_raw) of None \<Rightarrow> Raised | Some lat_min \<Rightarrow>
            (let lat0 = lat_deg + lat_min / 60;
                 lat1 = (if parts ! 3 = ''S'' then - lat0 else lat0);
                 lon_raw = parts ! 4 in
            (case pyfloat (take 3 lon_raw) of None \<Rightarrow> Raised | Some lon_deg \<Rightarrow>
            (case pyfloat (drop 3 lon_raw) of None \<Rightarrow> Raised | Some lon_min \<Rightarrow>
            (let lon0 = lon_deg + lon_min / 60;
                 lon1 = (if parts ! 5 = ''W'' then - lon0 else lon0)
             in Fix lat1 lon1)))))))
         else Skip)
      else Skip)"

text \<open>The \<open>for _ in range(10)\<close> loop inside the \<open>try\<close>, with the stored fix threaded.\<close>

fun read_lines :: "(string \<Rightarrow> real option) \<Rightarrow> nat \<Rightarrow> serial_read list \<Rightarrow> gps_fix \<Rightarrow> gps_fix" where
  "read_lines pyfloat 0 rs coords = coords"
| "read_lines pyfloat (Suc n) rs coords =
     (case readline rs of
        (SerialError, rs') \<Rightarrow> coords
      | (Line l, rs') \<Rightarrow>
          (case parse_sentence pyfloat l of
             Skip \<Rightarrow> read_lines pyfloat n rs' coords
           | Raised \<Rightarrow> coords
           | Fix a b \<Rightarrow> \<lparr>lat = Some a, lon = Some b\<rparr>))"

text \<open>The device is \<open>None\<close> when opening the serial port failed at start-up.\<close>

definition parse_gps_data ::
    "(string \<Rightarrow> real option) \<Rightarrow> serial_read list option \<Rightarrow> gps_fix \<Rightarrow> gps_fix" where
  "parse_gps_data pyfloat gps_serial last_gps_coords =
     (case gps_serial of
        None \<Rightarrow> last_gps_coords
      | Some rs \<Rightarrow> read_lines pyfloat 10 rs last_gps_coords)"

text \<open>A small instance of \<open>float\<close> for concrete runs: unsigned decimal numerals.\<close>

definition digit_val :: "char \<Rightarrow> nat option" where
  "digit_val c =
     (let n = (of_char c :: nat) in if 48 \<le> n \<and> n \<le> 57 then Some (n - 48) else None)"

fun digits_val :: "nat \<Rightarrow> string \<Rightarrow> nat option" where
  "digits_val acc [] = Some acc"
| "digits_val acc (c # cs) =
     (case digit_val c of None \<Rightarrow> None | Some d \<Rightarrow> digits_val (10 * acc + d) cs)"

definition decimal_float :: "string \<Rightarrow> real option" where
  "decimal_float s =
     (let ip = takeWhile (\<lambda>c. c \<noteq> CHR ''.'') s;
          fp = drop 1 (dropWhile (\<lambda>c. c \<noteq> CHR ''.'') s)
      in if ip = [] \<and> fp = [] then None
         else case (digits_val 0 ip, digits_val 0 fp) of
                (Some a, Some b) \<Rightarrow> Some (real a + real b / 10 ^ length fp)
              | _ \<Rightarrow> None)"

subsection \<open>Sensor ports\<close>

text \<open>
  \<open>TiltAngle a\<close> is the angle \<open>np.degrees(np.arccos(z / |(x, y, z)|))\<close> that
  \<open>check_tilt_angle\<close> computes from the axes it read; the other two readings are a missing
  accelerometer and an exception inside the \<open>try\<close>.
\<close>

datatype tilt_reading = NoAccelerometer | AxesError | TiltAngle real

definition TILT_THRESHOLD :: real where
  "TILT_THRESHOLD = 45"

definition check_tilt_angle :: "tilt_reading \<Rightarrow> bool \<times> real" where
  "check_tilt_angle r =
     (case r of
        NoAccelerometer \<Rightarrow> (False, 0)
      | AxesError \<Rightarrow> (False, 0)
      | TiltAngle tilt_angle \<Rightarrow> (tilt_angle > TILT_THRESHOLD, tilt_angle))"

datatype gas_reading = NoSensor | SensorError | SensorValue real

definition ALCOHOL_THRESHOLD :: real where
  "ALCOHOL_THRESHOLD = 500"

definition check_alcohol_level :: "gas_reading \<Rightarrow> bool" where
  "check_alcohol_level r =
     (case r of
        NoSensor \<Rightarrow> False
      | SensorError \<Rightarrow> False
      | SensorValue v \<Rightarrow> v * 1024 > ALCOHOL_THRESHOLD)"

subsection \<open>State, inputs and output ports\<close>

text \<open>
  The three subjects of \<open>send_emergency_email\<close>: \<open>ACCIDENT - Vehicle Tilted ...\<close> with
  the angle, \<open>DROWSINESS - Driver Not Responding\<close>, and
  \<open>ALCOHOL DETECTED - Failed Sobriety Test\<close>.
\<close>

datatype incident = Accident real | Drowsiness | AlcoholFailed

datatype command = PlayBeep | StopBeep | BuzzerOn | BuzzerOff | SendEmail incident gps_fix

datatype error = TypeError

record state =
  alert_active :: bool
  beep_start_time :: "real option"
  buzzer_active :: bool
  alcohol_test_active :: bool
  test_text :: string
  alcohol_test_failed :: bool
  accident_detected :: bool
  last_gps_coords :: gps_fix
  COUNTER :: nat
  lip_hist :: "real list"
  calib_base :: "real option"
  calib_count :: nat
  drowsiness_email_sent :: bool
  trace :: "command list"

definition init_state :: state where
  "init_state =
     \<lparr>alert_active = False, beep_start_time = None, buzzer_active = False,
      alcohol_test_active = False, test_text = [], alcohol_test_failed = False,
      accident_detected = False, last_gps_coords = \<lparr>lat = None, lon = None\<rparr>,
      COUNTER = 0, lip_hist = [], calib_base = None, calib_count = 0,
      drowsiness_email_sent = False, trace = []\<rparr>"

text \<open>
  One iteration's inputs. A face is the pair (EAR, MAR) that \<open>final_ear\<close> and
  \<open>mouth_aspect_ratio\<close> return for it; \<open>in_key\<close> is \<open>cv2.waitKey(1) & 0xFF\<close>;
  \<open>in_now\<close> is \<open>time.time()\<close> in the alert logic.
\<close>

record tick_input =
  in_frame :: bool
  in_gps :: "serial_read list option"
  in_tilt :: tilt_reading
  in_gas :: gas_reading
  in_sample :: "string list"
  in_rects :: "(real \<times> real) list"
  in_now :: real
  in_key :: char
  in_speech :: capture

definition play_beep_alert :: "state \<Rightarrow> state" where
  "play_beep_alert s = s\<lparr>trace := trace s @ [PlayBeep]\<rparr>"

definition stop_beep_alert :: "state \<Rightarrow> state" where
  "stop_beep_alert s = s\<lparr>trace := trace s @ [StopBeep]\<rparr>"

definition activate_external_buzzer :: "state \<Rightarrow> state" where
  "activate_external_buzzer s = s\<lparr>buzzer_active := True, trace := trace s @ [BuzzerOn]\<rparr>"

definition deactivate_external_buzzer :: "state \<Rightarrow> state" where
  "deactivate_external_buzzer s = s\<lparr>buzzer_active := False, trace := trace s @ [BuzzerOff]\<rparr>"

definition send_emergency_email :: "incident \<Rightarrow> gps_fix \<Rightarrow> state \<Rightarrow> state" where
  "send_emergency_email incident_type gps_coords s =
     s\<lparr>trace := trace s @ [SendEmail incident_type gps_coords]\<rparr>"

subsection \<open>The main loop, block by block\<close>

definition EYE_AR_THRESH :: real where
  "EYE_AR_THRESH = 0.25"

definition EYE_AR_CONSEC_FRAMES :: nat where
  "EYE_AR_CONSEC_FRAMES = 20"

definition MAR_MULTIPLIER :: real where
  "MAR_MULTIPLIER = 1.7"

definition MAR_SMOOTH_WIN :: nat where
  "MAR_SMOOTH_WIN = 10"

definition CALIB_FRAMES :: nat where
  "CALIB_FRAMES = 30"

definition BEEP_DURATION :: real where
  "BEEP_DURATION = 6"

definition np_mean :: "real list \<Rightarrow> real" where
  "np_mean xs = sum_list xs / real (length xs)"

definition gps_update :: "(string \<Rightarrow> real option) \<Rightarrow> tick_input \<Rightarrow> state \<Rightarrow> state" where
  "gps_update pyfloat i s =
     s\<lparr>last_gps_coords := parse_gps_data pyfloat (in_gps i) (last_gps_coords s)\<rparr>"

definition tilt_detection :: "tick_input \<Rightarrow> state \<Rightarrow> state" where
  "tilt_detection i s =
     (let (is_tilted, tilt_angle) = check_tilt_angle (in_tilt i) in
      if is_tilted \<and> \<not> accident_detected s then
        send_emergency_email (Accident tilt_angle) (last_gps_coords s)
          (activate_external_buzzer (s\<lparr>accident_detected := True\<rparr>))
      else s)"

definition alcohol_detection :: "tick_input \<Rightarrow> state \<Rightarrow> state" where
  "alcohol_detection i s =
     (if \<not> alcohol_test_active s \<and> check_alcohol_level (in_gas i) then
        s\<lparr>alcohol_test_active := True, test_text := generate_random_text (in_sample i)\<rparr>
      else s)"

definition sensors :: "(string \<Rightarrow> real option) \<Rightarrow> tick_input \<Rightarrow> state \<Rightarrow> state" where
  "sensors pyfloat i s = alcohol_detection i (tilt_detection i (gps_update pyfloat i s))"

text \<open>The branch \<open>len(rects) == 0\<close>.\<close>

definition no_face :: "state \<Rightarrow> state" where
  "no_face s =
     (let s1 = s\<lparr>COUNTER := 0\<rparr> in
      if \<not> accident_detected s1 \<and> \<not> alcohol_test_active s1 then
        (let s2 = s1\<lparr>beep_start_time := None\<rparr>;
             s3 = (if alert_active s2 then (stop_beep_alert s2)\<lparr>alert_active := False\<rparr> else s2)
         in if buzzer_active s3 then deactivate_external_buzzer s3 else s3)
      else s1)"

text \<open>The block \<open># Eye drowsiness\<close> of the loop over the faces.\<close>

definition eye_drowsiness :: "real \<Rightarrow> state \<times> bool \<Rightarrow> state \<times> bool" where
  "eye_drowsiness ear st =
     (let (s, trigger_alert) = st in
      if ear < EYE_AR_THRESH then
        (let s1 = s\<lparr>COUNTER := COUNTER s + 1\<rparr> in
         if COUNTER s1 \<ge> EYE_AR_CONSEC_FRAMES then (s1, True) else (s1, trigger_alert))
      else (s\<lparr>COUNTER := 0\<rparr>, trigger_alert))"

text \<open>
  The body of \<open>for rect in rects\<close>: smoothing (\<open>push_mar\<close> is the append followed by
  \<open>pop(0)\<close> on overflow), calibration or yawn test, then the eyes.
  After calibration \<open>calib_base * MAR_MULTIPLIER\<close> raises \<open>TypeError\<close> if the base is
  still \<open>None\<close>; nothing catches it.
\<close>

definition push_mar :: "real list \<Rightarrow> real \<Rightarrow> real list" where
  "push_mar hist mar =
     (let h1 = hist @ [mar] in if length h1 > MAR_SMOOTH_WIN then tl h1 else h1)"

definition process_face :: "state \<times> bool \<Rightarrow> real \<times> real \<Rightarrow> error + state \<times> bool" where
  "process_face st face =
     (let (s, trigger_alert) = st;
          (ear, mar) = face;
          s1 = s\<lparr>lip_hist := push_mar (lip_hist s) mar\<rparr>;
          smooth_mar = np_mean (lip_hist s1)
      in if calib_count s1 < CALIB_FRAMES then
           Inr (eye_drowsiness ear
                  (s1\<lparr>calib_base := Some (case calib_base s1 of None \<Rightarrow> smooth_mar
                                           | Some b \<Rightarrow> (b + smooth_mar) / 2),
                      calib_count := calib_count s1 + 1\<rparr>,
                   trigger_alert))
         else (case calib_base s1 of
                 None \<Rightarrow> Inl TypeError
               | Some b \<Rightarrow>
                   Inr (eye_drowsiness ear
                          (s1, if smooth_mar > b * MAR_MULTIPLIER then True else trigger_alert))))"

fun process_faces :: "state \<times> bool \<Rightarrow> (real \<times> real) list \<Rightarrow> error + state \<times> bool" where
  "process_faces st [] = Inr st"
| "process_faces st (f # fs) =
     (case process_face st f of Inl e \<Rightarrow> Inl e | Inr st' \<Rightarrow> process_faces st' fs)"

text \<open>Face detection and analysis: the new state and \<open>trigger_alert\<close>.\<close>

definition face_detection :: "(real \<times> real) list \<Rightarrow> state \<Rightarrow> error + state \<times> bool" where
  "face_detection faces s =
     (if length faces = 0 then Inr (no_face s, False) else process_faces (s, False) faces)"

text \<open>
  The block \<open># Alert Logic (Drowsiness/Yawn)\<close>. \<open>if beep_start_time and ...\<close> is false
  for \<open>None\<close> and for the float 0.
\<close>

definition alert_logic :: "bool \<Rightarrow> real \<Rightarrow> state \<Rightarrow> state" where
  "alert_logic trigger_alert now s =
     (if trigger_alert then
        (if \<not> alert_active s then
           (play_beep_alert (s\<lparr>alert_active := True, beep_start_time := Some now\<rparr>))
             \<lparr>drowsiness_email_sent := False\<rparr>
         else if (case beep_start_time s of
                    None \<Rightarrow> False
                  | Some t \<Rightarrow> t \<noteq> 0 \<and> now - t \<ge> BEEP_DURATION) then
           (let s1 = (if \<not> buzzer_active s then activate_external_buzzer s else s) in
            if \<not> drowsiness_email_sent s1 then
              (send_emergency_email Drowsiness (last_gps_coords s1) s1)
                \<lparr>drowsiness_email_sent := True\<rparr>
            else s1)
         else s)
      else
        (let s1 = (if alert_active s \<and> \<not> accident_detected s
                   then (stop_beep_alert s)\<lparr>alert_active := False\<rparr> else s);
             s2 = (if buzzer_active s1 \<and> \<not> accident_detected s1
                   then deactivate_external_buzzer s1 else s1)
         in if \<not> accident_detected s2 then s2\<lparr>beep_start_time := None\<rparr> else s2))"

text \<open>
  The block \<open># Keyboard controls\<close>. The key \<open>q\<close> leaves the state alone here and ends the
  loop in \<open>main_loop\<close>; the key \<open>a\<close> only prints.
\<close>

definition keyboard :: "tick_input \<Rightarrow> state \<Rightarrow> state" where
  "keyboard i s =
     (if in_key i = CHR ''q'' then s
      else if in_key i = CHR ''s'' \<and> alcohol_test_active s then
        (if verify_speech (test_text s) (in_speech i) then
           s\<lparr>alcohol_test_active := False, alcohol_test_failed := False\<rparr>
         else
           (send_emergency_email AlcoholFailed (last_gps_coords s)
              (activate_external_buzzer (s\<lparr>alcohol_test_failed := True\<rparr>)))
             \<lparr>alcohol_test_active := False\<rparr>)
      else if in_key i = CHR ''a'' then s
      else if in_key i = CHR ''r'' then
        deactivate_external_buzzer (s\<lparr>accident_detected := False, alcohol_test_failed := False\<rparr>)
      else s)"

text \<open>One iteration with a frame.\<close>

definition tick :: "(string \<Rightarrow> real option) \<Rightarrow> state \<Rightarrow> tick_input \<Rightarrow> error + state" where
  "tick pyfloat s i =
     (case face_detection (in_rects i) (sensors pyfloat i s) of
        Inl e \<Rightarrow> Inl e
      | Inr (s2, trigger_alert) \<Rightarrow> Inr (keyboard i (alert_logic trigger_alert (in_now i) s2)))"

text \<open>The code after the loop.\<close>

definition cleanup :: "state \<Rightarrow> state" where
  "cleanup s =
     (let s1 = stop_beep_alert s in
      if buzzer_active s1 then deactivate_external_buzzer s1 else s1)"

text \<open>
  \<open>while True\<close> over a finite prefix of inputs: an iteration without a frame is skipped,
  \<open>q\<close> breaks and cleans up, and when the inputs end the loop is still running.
\<close>

fun main_loop :: "(string \<Rightarrow> real option) \<Rightarrow> state \<Rightarrow> tick_input list \<Rightarrow> error + state" where
  "main_loop pyfloat s [] = Inr s"
| "main_loop pyfloat s (i # is) =
     (if \<not> in_frame i then main_loop pyfloat s is
      else (case tick pyfloat s i of
              Inl e \<Rightarrow> Inl e
            | Inr s' \<Rightarrow> if in_key i = CHR ''q'' then Inr (cleanup s') else main_loop pyfloat s' is))"

subsection \<open>Notions of the specification\<close>

text \<open>
  A fully parsed GGA sentence, in the words of \<open>parse_gps_data\<close>: the prefix, more than six
  fields, non-empty latitude and longitude fields, and four numbers that \<open>float\<close> accepts.
\<close>

definition valid_gga :: "(string \<Rightarrow> real option) \<Rightarrow> string \<Rightarrow> bool" where
  "valid_gga pyfloat line =
     ((startswith line ''$GPGGA'' \<or> startswith line ''$GNGGA'')
      \<and> (let parts = split_comma line in
           length parts > 6 \<and> parts ! 2 \<noteq> [] \<and> parts ! 4 \<noteq> []
           \<and> pyfloat (take 2 (parts ! 2)) \<noteq> None \<and> pyfloat (drop 2 (parts ! 2)) \<noteq> None
           \<and> pyfloat (take 3 (parts ! 4)) \<noteq> None \<and> pyfloat (drop 3 (parts ! 4)) \<noteq> None))"

text \<open>A sequence of read attempts, each with what the device delivers during it.\<close>

fun gps_attempts ::
    "(string \<Rightarrow> real option) \<Rightarrow> gps_fix \<Rightarrow> serial_read list option list \<Rightarrow> gps_fix" where
  "gps_attempts pyfloat coords [] = coords"
| "gps_attempts pyfloat coords (d # ds) =
     gps_attempts pyfloat (parse_gps_data pyfloat d coords) ds"

text \<open>Counting the notifications in the trace, by concern.\<close>

definition is_accident_email :: "command \<Rightarrow> bool" where
  "is_accident_email c = (case c of SendEmail (Accident a) g \<Rightarrow> True | _ \<Rightarrow> False)"

definition is_drowsiness_email :: "command \<Rightarrow> bool" where
  "is_drowsiness_email c = (case c of SendEmail Drowsiness g \<Rightarrow> True | _ \<Rightarrow> False)"

definition accident_emails :: "state \<Rightarrow> nat" where
  "accident_emails s = length (filter is_accident_email (trace s))"

definition drowsiness_emails :: "state \<Rightarrow> nat" where
  "drowsiness_emails s = length (filter is_drowsiness_email (trace s))"

text \<open>The commands issued between two states of one run.\<close>

definition emitted :: "state \<Rightarrow> state \<Rightarrow> command list" where
  "emitted s s' = drop (length (trace s)) (trace s')"

text \<open>
  The states in which the yawn test cannot raise: once calibration is over, a base exists.
  The initial state is one, and every iteration keeps the property.
\<close>

definition calib_ok :: "state \<Rightarrow> bool" where
  "calib_ok s = (calib_count s < CALIB_FRAMES \<or> calib_base s \<noteq> None)"

text \<open>\<open>trigger_alert\<close> as the alert logic of an iteration sees it.\<close>

definition trigger_of :: "(string \<Rightarrow> real option) \<Rightarrow> state \<Rightarrow> tick_input \<Rightarrow> bool" where
  "trigger_of pyfloat s i =
     (case face_detection (in_rects i) (sensors pyfloat i s) of
        Inl e \<Rightarrow> False
      | Inr (s2, trigger_alert) \<Rightarrow> trigger_alert)"

text \<open>The accident latch as the alert logic of an iteration sees it.\<close>

definition latched_in :: "state \<Rightarrow> tick_input \<Rightarrow> bool" where
  "latched_in s i = (accident_detected s \<or> fst (check_tilt_angle (in_tilt i)))"

text \<open>
  When the yawn test and the eye test of one face set \<open>trigger_alert\<close>, read off the
  state before the face is processed.
\<close>

definition yawn_fires :: "state \<Rightarrow> real \<Rightarrow> bool" where
  "yawn_fires s mar =
     (CALIB_FRAMES \<le> calib_count s
      \<and> (case calib_base s of
            None \<Rightarrow> False
          | Some b \<Rightarrow> np_mean (push_mar (lip_hist s) mar) > b * MAR_MULTIPLIER))"

definition drowsy_fires :: "state \<Rightarrow> real \<Rightarrow> bool" where
  "drowsy_fires s ear = (ear < EYE_AR_THRESH \<and> EYE_AR_CONSEC_FRAMES \<le> COUNTER s + 1)"

text \<open>The last \<open>n\<close> elements of a list.\<close>

definition last_n :: "nat \<Rightarrow> 'a list \<Rightarrow> 'a list" where
  "last_n n xs = drop (length xs - n) xs"


text \<open>The escalation condition of the alert logic: a start time is set and six seconds passed.\<close>

definition beep_elapsed :: "real \<Rightarrow> state \<Rightarrow> bool" where
  "beep_elapsed now s =
     (case beep_start_time s of None \<Rightarrow> False | Some t \<Rightarrow> t \<noteq> 0 \<and> now - t \<ge> BEEP_DURATION)"



text \<open>
  A run in which every iteration that processes a frame has \<open>trigger_alert\<close> true: one
  drowsiness/yawn episode, or a part of one.
\<close>

fun all_triggered :: "(string \<Rightarrow> real option) \<Rightarrow> state \<Rightarrow> tick_input list \<Rightarrow> bool" where
  "all_triggered pyfloat s [] = True"
| "all_triggered pyfloat s (i # is) =
     (if \<not> in_frame i then all_triggered pyfloat s is
      else trigger_of pyfloat s i
           \<and> (in_key i = CHR ''q''
               \<or> (case tick pyfloat s i of
                     Inl e \<Rightarrow> False
                   | Inr s' \<Rightarrow> all_triggered pyfloat s' is)))"

text \<open>The commands of the audible tone.\<close>

definition is_tone :: "command \<Rightarrow> bool" where
  "is_tone c = (c = PlayBeep \<or> c = StopBeep)"

subsection \<open>Inputs for concrete runs\<close>

text \<open>
  An iteration with a frame in which nothing happens: no face, no key (\<open>waitKey\<close> gives
  255), no GPS device, no accelerometer, no gas sensor. The other inputs vary one field.
\<close>

definition quiet_input :: tick_input where
  "quiet_input =
     \<lparr>in_frame = True, in_gps = None, in_tilt = NoAccelerometer, in_gas = NoSensor,
      in_sample = [], in_rects = [], in_now = 0, in_key = CHR 0xFF, in_speech = OtherError\<rparr>"

definition tilt_input :: "real \<Rightarrow> tick_input" where
  "tilt_input a = quiet_input\<lparr>in_tilt := TiltAngle a\<rparr>"

definition face_input :: "real \<Rightarrow> (real \<times> real) list \<Rightarrow> tick_input" where
  "face_input now faces = quiet_input\<lparr>in_rects := faces, in_now := now\<rparr>"

text \<open>A frame with one face, mouth at rest, eyes closed (EAR 0.2) or open (EAR 0.3).\<close>

definition closed_eyes :: "real \<Rightarrow> tick_input" where
  "closed_eyes now = face_input now [(0.2, 0.1)]"

definition open_eyes :: "real \<Rightarrow> tick_input" where
  "open_eyes now = face_input now [(0.3, 0.1)]"

text \<open>
  The state after nineteen consecutive frames with one face with closed eyes, from the
  initial state: the next such frame starts a drowsiness episode.
\<close>

definition nineteen_closed :: state where
  "nineteen_closed =
     init_state\<lparr>COUNTER := 19, lip_hist := replicate 10 0.1, calib_base := Some 0.1,
                calib_count := 19\<rparr>"

text \<open>The state one frame earlier; also the state after nine frames with two such faces.\<close>

definition eighteen_closed :: state where
  "eighteen_closed = nineteen_closed\<lparr>COUNTER := 18, calib_count := 18\<rparr>"

text \<open>
  The state after the twentieth such frame, at time 100: a drowsiness episode has started.
  And the state two frames later, at time 107: the episode is escalated and notified.
\<close>

definition alerting :: state where
  "alerting =
     nineteen_closed\<lparr>alert_active := True, beep_start_time := Some 100, COUNTER := 20,
                     calib_count := 20, trace := [PlayBeep]\<rparr>"

definition escalated :: state where
  "escalated =
     alerting\<lparr>buzzer_active := True, COUNTER := 22, calib_count := 22,
              drowsiness_email_sent := True,
              trace := [PlayBeep, BuzzerOn, SendEmail Drowsiness \<lparr>lat = None, lon = None\<rparr>]\<rparr>"

text \<open>
  The state two iterations after \<open>nineteen_closed\<close>, when the episode started at time 100
  and the vehicle tilted by 50 degrees in the iteration after: alert active and accident
  latched.
\<close>

definition alerting_latched :: state where
  "alerting_latched =
     nineteen_closed\<lparr>alert_active := True, beep_start_time := Some 100, buzzer_active := True,
                     accident_detected := True, COUNTER := 21, calib_count := 21,
                     trace := [PlayBeep, BuzzerOn,
                               SendEmail (Accident 50) \<lparr>lat = None, lon = None\<rparr>]\<rparr>"

text \<open>
  A frame with one face with open eyes and mouth ratio \<open>m\<close>; and the state after thirty
  such frames with mouth ratio 0.2 (calibration over, base 0.2) followed by nine with mouth
  ratio \<open>m\<close>.
\<close>

definition mouth_input :: "real \<Rightarrow> tick_input" where
  "mouth_input m = face_input 0 [(0.3, m)]"

definition calibrated_then :: "real \<Rightarrow> state" where
  "calibrated_then m =
     init_state\<lparr>lip_hist := 0.2 # replicate 9 m, calib_base := Some 0.2, calib_count := 30\<rparr>"

text \<open>A frame with two faces, both with closed eyes.\<close>

definition two_closed :: tick_input where
  "two_closed = face_input 0 [(0.2, 0.1), (0.2, 0.1)]"

text \<open>The gas sensor above the threshold, and the key \<open>s\<close> with a transcript.\<close>

definition gas_input :: "string list \<Rightarrow> tick_input" where
  "gas_input ws = quiet_input\<lparr>in_gas := SensorValue 0.6, in_sample := ws\<rparr>"

definition speak_input :: "capture \<Rightarrow> tick_input" where
  "speak_input c = quiet_input\<lparr>in_key := CHR ''s'', in_speech := c\<rparr>"

section \<open>Verification\<close>

subsection \<open>Speech verification\<close>

lemma verify_speech_Heard:
  "verify_speech p (Heard h) = (prompt_words p \<noteq> {} \<and> 0.75 \<le> overlap_ratio p h)"
  by (simp add: verify_speech_def overlap_ratio_def prompt_words_def Let_def)

lemma overlap_ratio_threshold:
  assumes ne: "prompt_words p \<noteq> {}"
  shows "(0.75 \<le> overlap_ratio p h)
         = (3 * card (prompt_words p) \<le> 4 * card (prompt_words p \<inter> prompt_words h))"
proof -
  have "finite (prompt_words p)" by (simp add: prompt_words_def)
  with ne have pos: "0 < real (card (prompt_words p))" by (simp add: card_gt_0_iff)
  have "(0.75 \<le> overlap_ratio p h)
        = (0.75 * real (card (prompt_words p)) \<le> real (card (prompt_words p \<inter> prompt_words h)))"
    unfolding overlap_ratio_def using pos by (simp add: pos_le_divide_eq)
  also have "\<dots> = (real (3 * card (prompt_words p))
                      \<le> real (4 * card (prompt_words p \<inter> prompt_words h)))"
    by (simp add: mult.commute)
  also have "\<dots> = (3 * card (prompt_words p) \<le> 4 * card (prompt_words p \<inter> prompt_words h))"
    by (rule of_nat_le_iff)
  finally show ?thesis .
qed

text \<open>
  Claim C7. \<open>verify_speech\<close> passes exactly when the prompt has a word and the overlap ratio
  \<open>|prompt_words \<inter> heard_words| / |prompt_words|\<close> is at least 0.75 (equivalently,
  \<open>3 * |prompt_words| \<le> 4 * |prompt_words \<inter> heard_words|\<close>); a timeout, unintelligible
  audio and any other failure of the capture each return \<open>False\<close> at once, since the
  function consumes one capture result and is total.
\<close>

theorem verify_speech_threshold:
  "verify_speech p (Heard h) = (prompt_words p \<noteq> {} \<and> 0.75 \<le> overlap_ratio p h)
   \<and> verify_speech p (Heard h)
       = (prompt_words p \<noteq> {}
          \<and> 3 * card (prompt_words p) \<le> 4 * card (prompt_words p \<inter> prompt_words h))
   \<and> \<not> verify_speech p WaitTimeoutError
   \<and> \<not> verify_speech p UnknownValueError
   \<and> \<not> verify_speech p OtherError"
  using overlap_ratio_threshold [of p h]
  by (auto simp: verify_speech_Heard) (simp_all add: verify_speech_def)

text \<open>
  The examples of the specification: with the prompt \<open>apple banana computer elephant\<close>,
  hearing all four words gives ratio 1 and passes, hearing two gives ratio 1/2 and fails.
\<close>

theorem verify_speech_threshold_witness:
  "overlap_ratio ''apple banana computer elephant'' ''apple banana computer elephant'' = 1
   \<and> verify_speech ''apple banana computer elephant'' (Heard ''apple banana computer elephant'')
   \<and> overlap_ratio ''apple banana computer elephant'' ''apple banana'' = 1 / 2
   \<and> \<not> verify_speech ''apple banana computer elephant'' (Heard ''apple banana'')
   \<and> \<not> verify_speech ''apple banana computer elephant'' WaitTimeoutError"
  using verify_speech_threshold [of "''apple banana computer elephant''"
                                    "''apple banana computer elephant''"]
        verify_speech_threshold [of "''apple banana computer elephant''" "''apple banana''"]
  by (simp add: overlap_ratio_def prompt_words_def py_split_def py_lower_def lower_char_def
                is_space_def)

lemma split_acc_word:
  "\<forall>c\<in>set w. \<not> is_space c \<Longrightarrow> split_acc cur (w @ rest) = split_acc (cur @ w) rest"
  by (induction w arbitrary: cur) auto

lemma is_space_blank: "is_space (CHR '' '')"
  by (simp add: is_space_def)

lemma split_acc_join:
  "\<forall>w\<in>set ws. w \<noteq> [] \<and> (\<forall>c\<in>set w. \<not> is_space c) \<Longrightarrow> split_acc [] (join_space ws) = ws"
proof (induction ws rule: join_space.induct)
  case 1
  then show ?case by simp
next
  case (2 w)
  then have "split_acc [] (w @ []) = split_acc ([] @ w) []"
    by (intro split_acc_word) simp
  with 2 show ?case by simp
next
  case (3 w v ws)
  then have w: "w \<noteq> []" "\<forall>c\<in>set w. \<not> is_space c" by simp_all
  have "split_acc [] (w @ '' '' @ join_space (v # ws)) = split_acc ([] @ w) ('' '' @ join_space (v # ws))"
    using w(2) by (rule split_acc_word)
  also have "\<dots> = w # split_acc [] (join_space (v # ws))"
    using w(1) is_space_blank by simp
  also have "split_acc [] (join_space (v # ws)) = v # ws"
    using 3 by simp
  finally show ?case by simp
qed

lemma py_lower_join: "py_lower (join_space ws) = join_space (map py_lower ws)"
  by (induction ws rule: join_space.induct) (simp_all add: py_lower_def lower_char_def)

lemma vocabulary_words:
  "w \<in> set vocabulary \<Longrightarrow> py_lower w = w \<and> w \<noteq> [] \<and> (\<forall>c\<in>set w. \<not> is_space c)"
  by (auto simp: vocabulary_def py_lower_def lower_char_def is_space_def)

lemma prompt_words_sample:
  assumes "is_sample ws"
  shows "prompt_words (generate_random_text ws) = set ws" and "card (prompt_words (generate_random_text ws)) = 4"
proof -
  from assms have sub: "set ws \<subseteq> set vocabulary" and d: "distinct ws" and l: "length ws = 4"
    by (simp_all add: is_sample_def)
  have "map py_lower ws = ws"
    using sub vocabulary_words by (intro map_idI) auto
  moreover have "split_acc [] (join_space ws) = ws"
    using sub vocabulary_words by (intro split_acc_join) blast
  ultimately show "prompt_words (generate_random_text ws) = set ws"
    by (simp add: prompt_words_def generate_random_text_def py_lower_join py_split_def)
  then show "card (prompt_words (generate_random_text ws)) = 4"
    using d l by (simp add: distinct_card)
qed

lemma overlap_ratio_full:
  assumes "prompt_words p \<noteq> {}" "prompt_words p \<subseteq> prompt_words h"
  shows "overlap_ratio p h = 1"
proof -
  have "prompt_words p \<inter> prompt_words h = prompt_words p" using assms(2) by blast
  moreover have "card (prompt_words p) \<noteq> 0" using assms(1) by (simp add: prompt_words_def)
  ultimately show ?thesis by (simp add: overlap_ratio_def)
qed

lemma overlap_ratio_mono:
  assumes "prompt_words h \<subseteq> prompt_words h'"
  shows "overlap_ratio p h \<le> overlap_ratio p h'"
proof -
  have "card (prompt_words p \<inter> prompt_words h) \<le> card (prompt_words p \<inter> prompt_words h')"
    using assms by (intro card_mono) (auto simp: prompt_words_def)
  then show ?thesis
    by (simp add: overlap_ratio_def divide_right_mono)
qed

text \<open>
  Claim C9. Matching depends only on the sets of lowercased words: a transcript that
  contains every prompt word (in any order, any letter case, with any extra words) has
  overlap ratio 1 and passes, for every prompt with at least one word and in particular for
  every prompt \<open>generate_random_text\<close> can produce; more spoken words never lower the
  ratio nor turn a pass into a failure; and two prompt/transcript pairs that agree after
  lowercasing, or have the same word sets, get the same verdict.
\<close>

theorem speech_match_sets:
  "(prompt_words p \<noteq> {} \<and> prompt_words p \<subseteq> prompt_words h
      \<longrightarrow> overlap_ratio p h = 1 \<and> verify_speech p (Heard h))
   \<and> (is_sample ws \<and> set ws \<subseteq> prompt_words h
      \<longrightarrow> overlap_ratio (generate_random_text ws) h = 1
          \<and> verify_speech (generate_random_text ws) (Heard h))
   \<and> (prompt_words h \<subseteq> prompt_words h'
      \<longrightarrow> overlap_ratio p h \<le> overlap_ratio p h'
          \<and> (verify_speech p (Heard h) \<longrightarrow> verify_speech p (Heard h')))
   \<and> (py_lower p = py_lower p' \<and> py_lower h = py_lower h'
      \<longrightarrow> verify_speech p (Heard h) = verify_speech p' (Heard h'))
   \<and> (prompt_words p = prompt_words p' \<and> prompt_words h = prompt_words h'
      \<longrightarrow> verify_speech p (Heard h) = verify_speech p' (Heard h'))"
proof (intro conjI impI)
  assume a: "prompt_words p \<noteq> {} \<and> prompt_words p \<subseteq> prompt_words h"
  then show r: "overlap_ratio p h = 1" by (simp add: overlap_ratio_full)
  from a r show "verify_speech p (Heard h)" by (simp add: verify_speech_Heard)
next
  assume a: "is_sample ws \<and> set ws \<subseteq> prompt_words h"
  then have ne: "prompt_words (generate_random_text ws) \<noteq> {}"
    using prompt_words_sample(2) [of ws] by auto
  from a have sub: "prompt_words (generate_random_text ws) \<subseteq> prompt_words h"
    by (simp add: prompt_words_sample(1))
  from ne sub show r: "overlap_ratio (generate_random_text ws) h = 1" by (rule overlap_ratio_full)
  from ne r show "verify_speech (generate_random_text ws) (Heard h)" by (simp add: verify_speech_Heard)
next
  assume a: "prompt_words h \<subseteq> prompt_words h'"
  then show m: "overlap_ratio p h \<le> overlap_ratio p h'" by (rule overlap_ratio_mono)
  assume "verify_speech p (Heard h)"
  with m show "verify_speech p (Heard h')" by (auto simp: verify_speech_Heard)
next
  assume "py_lower p = py_lower p' \<and> py_lower h = py_lower h'"
  then show "verify_speech p (Heard h) = verify_speech p' (Heard h')"
    by (simp add: verify_speech_def)
next
  assume "prompt_words p = prompt_words p' \<and> prompt_words h = prompt_words h'"
  then show "verify_speech p (Heard h) = verify_speech p' (Heard h')"
    by (simp add: verify_speech_Heard overlap_ratio_def)
qed

theorem speech_match_sets_witness:
  "overlap_ratio ''apple banana computer elephant'' ''so ELEPHANT Banana banana computer um Apple'' = 1
   \<and> verify_speech ''apple banana computer elephant''
         (Heard ''so ELEPHANT Banana banana computer um Apple'')
   \<and> is_sample [''kitchen'', ''apple'', ''guitar'', ''jacket'']
   \<and> verify_speech (generate_random_text [''kitchen'', ''apple'', ''guitar'', ''jacket''])
         (Heard ''Jacket  GUITAR apple Kitchen apple'')
   \<and> overlap_ratio ''apple banana'' ''apple'' \<le> overlap_ratio ''apple banana'' ''apple pie apple''
   \<and> verify_speech ''Apple BANANA'' (Heard ''banana APPLE'')
       = verify_speech ''apple banana'' (Heard ''Banana Apple'')
   \<and> verify_speech ''apple banana'' (Heard ''banana cherry'')
       = verify_speech ''banana apple apple'' (Heard ''cherry cherry banana'')"
proof -
  have h1: "prompt_words ''apple banana computer elephant'' \<noteq> {}
            \<and> prompt_words ''apple banana computer elephant''
                \<subseteq> prompt_words ''so ELEPHANT Banana banana computer um Apple''"
    by code_simp
  have h2: "is_sample [''kitchen'', ''apple'', ''guitar'', ''jacket'']
            \<and> set [''kitchen'', ''apple'', ''guitar'', ''jacket'']
                \<subseteq> prompt_words ''Jacket  GUITAR apple Kitchen apple''"
    by code_simp
  have h3: "prompt_words ''apple'' \<subseteq> prompt_words ''apple pie apple''"
    by code_simp
  have h4: "py_lower ''Apple BANANA'' = py_lower ''apple banana''
            \<and> py_lower ''banana APPLE'' = py_lower ''Banana Apple''"
    by code_simp
  have h5: "prompt_words ''apple banana'' = prompt_words ''banana apple apple''
            \<and> prompt_words ''banana cherry'' = prompt_words ''cherry cherry banana''"
    by code_simp
  from h1 speech_match_sets [where p = "''apple banana computer elephant''"
          and h = "''so ELEPHANT Banana banana computer um Apple''"]
  have c1: "overlap_ratio ''apple banana computer elephant''
              ''so ELEPHANT Banana banana computer um Apple'' = 1
            \<and> verify_speech ''apple banana computer elephant''
                  (Heard ''so ELEPHANT Banana banana computer um Apple'')"
    by blast
  from h2 speech_match_sets [where ws = "[''kitchen'', ''apple'', ''guitar'', ''jacket'']"
          and h = "''Jacket  GUITAR apple Kitchen apple''"]
  have c2: "verify_speech (generate_random_text [''kitchen'', ''apple'', ''guitar'', ''jacket''])
              (Heard ''Jacket  GUITAR apple Kitchen apple'')"
    by blast
  from h3 speech_match_sets [where p = "''apple banana''" and h = "''apple''"
          and h' = "''apple pie apple''"]
  have c3: "overlap_ratio ''apple banana'' ''apple'' \<le> overlap_ratio ''apple banana'' ''apple pie apple''"
    by blast
  from h4 speech_match_sets [where p = "''Apple BANANA''" and h = "''banana APPLE''"
          and p' = "''apple banana''" and h' = "''Banana Apple''"]
  have c4: "verify_speech ''Apple BANANA'' (Heard ''banana APPLE'')
            = verify_speech ''apple banana'' (Heard ''Banana Apple'')"
    by blast
  from h5 speech_match_sets [where p = "''apple banana''" and h = "''banana cherry''"
          and p' = "''banana apple apple''" and h' = "''cherry cherry banana''"]
  have c5: "verify_speech ''apple banana'' (Heard ''banana cherry'')
            = verify_speech ''banana apple apple'' (Heard ''cherry cherry banana'')"
    by blast
  from c1 h2 c2 c3 c4 c5 show ?thesis by blast
qed

subsection \<open>GPS fix\<close>

lemma parse_sentence_Fix_valid: "parse_sentence pf l = Fix a b \<Longrightarrow> valid_gga pf l"
  by (auto simp: parse_sentence_def valid_gga_def Let_def split: if_splits option.splits)

lemma parse_sentence_empty: "parse_sentence pf [] = Skip"
  by (simp add: parse_sentence_def startswith_def)

lemma read_lines_cases:
  "read_lines pf n rs c = c
   \<or> (\<exists>l a b. Line l \<in> set (take n rs) \<and> parse_sentence pf l = Fix a b
              \<and> read_lines pf n rs c = \<lparr>lat = Some a, lon = Some b\<rparr>)"
proof (induction n arbitrary: rs)
  case 0
  then show ?case by simp
next
  case (Suc n)
  show ?case
  proof (cases rs)
    case Nil
    with Suc [of "[]"] show ?thesis by (simp add: parse_sentence_empty)
  next
    case (Cons r rs')
    show ?thesis
    proof (cases r)
      case SerialError
      with Cons show ?thesis by simp
    next
      case (Line l)
      show ?thesis
      proof (cases "parse_sentence pf l")
        case Skip
        with Cons Line Suc [of rs'] show ?thesis by auto
      next
        case Raised
        with Cons Line show ?thesis by simp
      next
        case (Fix a b)
        with Cons Line show ?thesis by auto
      qed
    qed
  qed
qed

lemma parse_gps_data_cases:
  "parse_gps_data pf dev c = c
   \<or> (\<exists>rs l a b. dev = Some rs \<and> Line l \<in> set (take 10 rs) \<and> parse_sentence pf l = Fix a b
              \<and> parse_gps_data pf dev c = \<lparr>lat = Some a, lon = Some b\<rparr>)"
  using read_lines_cases [of pf 10 _ c]
  by (cases dev) (auto simp: parse_gps_data_def)

lemma parse_gps_data_keeps:
  "lat c \<noteq> None \<and> lon c \<noteq> None
   \<Longrightarrow> lat (parse_gps_data pf dev c) \<noteq> None \<and> lon (parse_gps_data pf dev c) \<noteq> None"
  using parse_gps_data_cases [of pf dev c] by auto

lemma gps_attempts_keeps:
  "lat c \<noteq> None \<and> lon c \<noteq> None
   \<Longrightarrow> lat (gps_attempts pf c ds) \<noteq> None \<and> lon (gps_attempts pf c ds) \<noteq> None"
proof (induction ds arbitrary: c)
  case Nil
  then show ?case by simp
next
  case (Cons d ds)
  from Cons.prems have "lat (parse_gps_data pf d c) \<noteq> None \<and> lon (parse_gps_data pf d c) \<noteq> None"
    by (rule parse_gps_data_keeps)
  then show ?case using Cons.IH by simp
qed

text \<open>
  Claim C8. The stored fix is last-known-good. An attempt either leaves the stored
  coordinates exactly as they were, or stores the coordinates of a fully parsed GGA sentence
  among the (at most ten) lines it read; so without a device, and when none of the lines
  read is a fully parsed sentence, the coordinates are unchanged. Once both coordinates hold
  a value they hold one after every sequence of attempts.
\<close>

theorem gps_last_known_good:
  "parse_gps_data pf None c = c
   \<and> ((\<forall>l. Line l \<in> set (take 10 rs) \<longrightarrow> \<not> valid_gga pf l) \<longrightarrow> parse_gps_data pf (Some rs) c = c)
   \<and> (parse_gps_data pf dev c = c
       \<or> (\<exists>rs l a b. dev = Some rs \<and> Line l \<in> set (take 10 rs) \<and> valid_gga pf l
                    \<and> parse_sentence pf l = Fix a b
                    \<and> parse_gps_data pf dev c = \<lparr>lat = Some a, lon = Some b\<rparr>))
   \<and> (lat c \<noteq> None \<and> lon c \<noteq> None
       \<longrightarrow> lat (gps_attempts pf c ds) \<noteq> None \<and> lon (gps_attempts pf c ds) \<noteq> None)"
proof (intro conjI impI)
  show "parse_gps_data pf None c = c" by (simp add: parse_gps_data_def)
next
  assume "\<forall>l. Line l \<in> set (take 10 rs) \<longrightarrow> \<not> valid_gga pf l"
  then show "parse_gps_data pf (Some rs) c = c"
    using parse_gps_data_cases [of pf "Some rs" c] parse_sentence_Fix_valid [of pf] by auto
next
  show "parse_gps_data pf dev c = c
        \<or> (\<exists>rs l a b. dev = Some rs \<and> Line l \<in> set (take 10 rs) \<and> valid_gga pf l
                    \<and> parse_sentence pf l = Fix a b
                    \<and> parse_gps_data pf dev c = \<lparr>lat = Some a, lon = Some b\<rparr>)"
    using parse_gps_data_cases [of pf dev c] parse_sentence_Fix_valid [of pf] by blast
next
  assume "lat c \<noteq> None \<and> lon c \<noteq> None"
  then show "lat (gps_attempts pf c ds) \<noteq> None" "lon (gps_attempts pf c ds) \<noteq> None"
    using gps_attempts_keeps [of c pf ds] by simp_all
qed

text \<open>
  The example of the specification: a valid sentence stores (40, -73); a malformed
  sentence, a sentence with empty fields and an exception of the port after it leave
  that fix unchanged.
\<close>

theorem gps_last_known_good_witness:
  "parse_gps_data decimal_float
      (Some [Line ''$GPGGA,123519,4000.000,N,07300.000,W,1,08,0.9,545.4,M,46.9,M,,''])
      \<lparr>lat = None, lon = None\<rparr> = \<lparr>lat = Some 40, lon = Some (- 73)\<rparr>
   \<and> \<not> valid_gga decimal_float ''$GPGGA,123519,4x00.0,N,07300.000,W,1''
   \<and> parse_gps_data decimal_float (Some [Line ''$GPGGA,123519,4x00.0,N,07300.000,W,1''])
        \<lparr>lat = Some 40, lon = Some (- 73)\<rparr> = \<lparr>lat = Some 40, lon = Some (- 73)\<rparr>
   \<and> gps_attempts decimal_float \<lparr>lat = Some 40, lon = Some (- 73)\<rparr>
        [Some [Line ''$GPGGA,123519,,,,,0,00'', Line ''garbage''], None, Some [SerialError]]
      = \<lparr>lat = Some 40, lon = Some (- 73)\<rparr>
   \<and> lat (gps_attempts decimal_float \<lparr>lat = Some 40, lon = Some (- 73)\<rparr>
        [Some [Line ''$GNGGA,1,5130.000,S,00007.500,E,1,04''], None]) \<noteq> None"
proof -
  have nv: "\<not> valid_gga decimal_float ''$GPGGA,123519,4x00.0,N,07300.000,W,1''"
    by (simp add: valid_gga_def startswith_def split_comma_def decimal_float_def digit_val_def)
  then have v: "\<forall>l. Line l \<in> set (take 10 [Line ''$GPGGA,123519,4x00.0,N,07300.000,W,1''])
              \<longrightarrow> \<not> valid_gga decimal_float l"
    by simp
  have a: "parse_gps_data decimal_float
      (Some [Line ''$GPGGA,123519,4000.000,N,07300.000,W,1,08,0.9,545.4,M,46.9,M,,''])
      \<lparr>lat = None, lon = None\<rparr> = \<lparr>lat = Some 40, lon = Some (- 73)\<rparr>"
    by code_simp
  have b: "gps_attempts decimal_float \<lparr>lat = Some 40, lon = Some (- 73)\<rparr>
        [Some [Line ''$GPGGA,123519,,,,,0,00'', Line ''garbage''], None, Some [SerialError]]
      = \<lparr>lat = Some 40, lon = Some (- 73)\<rparr>"
    by code_simp
  from v gps_last_known_good [where pf = decimal_float
      and c = "\<lparr>lat = Some 40, lon = Some (- 73)\<rparr>"
      and rs = "[Line ''$GPGGA,123519,4x00.0,N,07300.000,W,1'']"]
  have c: "parse_gps_data decimal_float (Some [Line ''$GPGGA,123519,4x00.0,N,07300.000,W,1''])
        \<lparr>lat = Some 40, lon = Some (- 73)\<rparr> = \<lparr>lat = Some 40, lon = Some (- 73)\<rparr>"
    by blast
  have k: "lat \<lparr>lat = Some (40::real), lon = Some (- 73::real)\<rparr> \<noteq> None
           \<and> lon \<lparr>lat = Some (40::real), lon = Some (- 73::real)\<rparr> \<noteq> None"
    by simp
  from k gps_last_known_good [where pf = decimal_float
      and c = "\<lparr>lat = Some 40, lon = Some (- 73)\<rparr>"
      and ds = "[Some [Line ''$GNGGA,1,5130.000,S,00007.500,E,1,04''], None]"]
  have d: "lat (gps_attempts decimal_float \<lparr>lat = Some 40, lon = Some (- 73)\<rparr>
        [Some [Line ''$GNGGA,1,5130.000,S,00007.500,E,1,04''], None]) \<noteq> None"
    by blast
  from a nv c b d show ?thesis by blast
qed

subsection \<open>What each block changes\<close>

lemma gps_update_fields:
  "alert_active (gps_update pf i s) = alert_active s"
  "beep_start_time (gps_update pf i s) = beep_start_time s"
  "buzzer_active (gps_update pf i s) = buzzer_active s"
  "alcohol_test_active (gps_update pf i s) = alcohol_test_active s"
  "test_text (gps_update pf i s) = test_text s"
  "alcohol_test_failed (gps_update pf i s) = alcohol_test_failed s"
  "accident_detected (gps_update pf i s) = accident_detected s"
  "last_gps_coords (gps_update pf i s) = parse_gps_data pf (in_gps i) (last_gps_coords s)"
  "COUNTER (gps_update pf i s) = COUNTER s"
  "lip_hist (gps_update pf i s) = lip_hist s"
  "calib_base (gps_update pf i s) = calib_base s"
  "calib_count (gps_update pf i s) = calib_count s"
  "drowsiness_email_sent (gps_update pf i s) = drowsiness_email_sent s"
  "trace (gps_update pf i s) = trace s"
  by (simp_all add: gps_update_def)

lemma tilt_detection_fields:
  "alert_active (tilt_detection i s) = alert_active s"
  "beep_start_time (tilt_detection i s) = beep_start_time s"
  "buzzer_active (tilt_detection i s)
     = (buzzer_active s \<or> (fst (check_tilt_angle (in_tilt i)) \<and> \<not> accident_detected s))"
  "alcohol_test_active (tilt_detection i s) = alcohol_test_active s"
  "test_text (tilt_detection i s) = test_text s"
  "alcohol_test_failed (tilt_detection i s) = alcohol_test_failed s"
  "accident_detected (tilt_detection i s) = latched_in s i"
  "last_gps_coords (tilt_detection i s) = last_gps_coords s"
  "COUNTER (tilt_detection i s) = COUNTER s"
  "lip_hist (tilt_detection i s) = lip_hist s"
  "calib_base (tilt_detection i s) = calib_base s"
  "calib_count (tilt_detection i s) = calib_count s"
  "drowsiness_email_sent (tilt_detection i s) = drowsiness_email_sent s"
  "trace (tilt_detection i s)
     = trace s @ (if fst (check_tilt_angle (in_tilt i)) \<and> \<not> accident_detected s
                  then [BuzzerOn, SendEmail (Accident (snd (check_tilt_angle (in_tilt i)))) (last_gps_coords s)]
                  else [])"
  by (auto simp: tilt_detection_def latched_in_def activate_external_buzzer_def
        send_emergency_email_def split: prod.splits)

lemma alcohol_detection_fields:
  "alert_active (alcohol_detection i s) = alert_active s"
  "beep_start_time (alcohol_detection i s) = beep_start_time s"
  "buzzer_active (alcohol_detection i s) = buzzer_active s"
  "alcohol_test_active (alcohol_detection i s)
     = (alcohol_test_active s \<or> check_alcohol_level (in_gas i))"
  "alcohol_test_failed (alcohol_detection i s) = alcohol_test_failed s"
  "accident_detected (alcohol_detection i s) = accident_detected s"
  "last_gps_coords (alcohol_detection i s) = last_gps_coords s"
  "COUNTER (alcohol_detection i s) = COUNTER s"
  "lip_hist (alcohol_detection i s) = lip_hist s"
  "calib_base (alcohol_detection i s) = calib_base s"
  "calib_count (alcohol_detection i s) = calib_count s"
  "drowsiness_email_sent (alcohol_detection i s) = drowsiness_email_sent s"
  "trace (alcohol_detection i s) = trace s"
  by (auto simp: alcohol_detection_def)

lemma sensors_fields:
  "alert_active (sensors pf i s) = alert_active s"
  "beep_start_time (sensors pf i s) = beep_start_time s"
  "buzzer_active (sensors pf i s)
     = (buzzer_active s \<or> (fst (check_tilt_angle (in_tilt i)) \<and> \<not> accident_detected s))"
  "alcohol_test_active (sensors pf i s)
     = (alcohol_test_active s \<or> check_alcohol_level (in_gas i))"
  "alcohol_test_failed (sensors pf i s) = alcohol_test_failed s"
  "accident_detected (sensors pf i s) = latched_in s i"
  "last_gps_coords (sensors pf i s) = parse_gps_data pf (in_gps i) (last_gps_coords s)"
  "COUNTER (sensors pf i s) = COUNTER s"
  "lip_hist (sensors pf i s) = lip_hist s"
  "calib_base (sensors pf i s) = calib_base s"
  "calib_count (sensors pf i s) = calib_count s"
  "drowsiness_email_sent (sensors pf i s) = drowsiness_email_sent s"
  "trace (sensors pf i s)
     = trace s @ (if fst (check_tilt_angle (in_tilt i)) \<and> \<not> accident_detected s
                  then [BuzzerOn, SendEmail (Accident (snd (check_tilt_angle (in_tilt i))))
                                    (parse_gps_data pf (in_gps i) (last_gps_coords s))]
                  else [])"
  by (simp_all add: sensors_def alcohol_detection_fields tilt_detection_fields gps_update_fields
        latched_in_def)

lemma no_face_fields:
  "alcohol_test_active (no_face s) = alcohol_test_active s"
  "test_text (no_face s) = test_text s"
  "alcohol_test_failed (no_face s) = alcohol_test_failed s"
  "accident_detected (no_face s) = accident_detected s"
  "last_gps_coords (no_face s) = last_gps_coords s"
  "COUNTER (no_face s) = 0"
  "lip_hist (no_face s) = lip_hist s"
  "calib_base (no_face s) = calib_base s"
  "calib_count (no_face s) = calib_count s"
  "drowsiness_email_sent (no_face s) = drowsiness_email_sent s"
  by (simp_all add: no_face_def Let_def stop_beep_alert_def deactivate_external_buzzer_def)

lemma no_face_alert:
  "alert_active (no_face s)
     = (alert_active s \<and> (accident_detected s \<or> alcohol_test_active s))"
  "beep_start_time (no_face s)
     = (if accident_detected s \<or> alcohol_test_active s then beep_start_time s else None)"
  "buzzer_active (no_face s)
     = (buzzer_active s \<and> (accident_detected s \<or> alcohol_test_active s))"
  "trace (no_face s)
     = trace s @ (if accident_detected s \<or> alcohol_test_active s then []
                  else (if alert_active s then [StopBeep] else [])
                       @ (if buzzer_active s then [BuzzerOff] else []))"
  by (auto simp: no_face_def Let_def stop_beep_alert_def deactivate_external_buzzer_def)

lemma eye_drowsiness_eq:
  "eye_drowsiness ear (s, t)
     = (s\<lparr>COUNTER := (if ear < EYE_AR_THRESH then COUNTER s + 1 else 0)\<rparr>, t \<or> drowsy_fires s ear)"
  by (simp add: eye_drowsiness_def drowsy_fires_def Let_def)

lemma process_face_calibrating:
  "calib_count s < CALIB_FRAMES \<Longrightarrow>
   process_face (s, t) (ear, mar)
     = Inr (s\<lparr>lip_hist := push_mar (lip_hist s) mar,
              calib_base := Some (case calib_base s of
                                    None \<Rightarrow> np_mean (push_mar (lip_hist s) mar)
                                  | Some b \<Rightarrow> (b + np_mean (push_mar (lip_hist s) mar)) / 2),
              calib_count := calib_count s + 1,
              COUNTER := (if ear < EYE_AR_THRESH then COUNTER s + 1 else 0)\<rparr>,
            t \<or> drowsy_fires s ear)"
  by (simp add: process_face_def Let_def eye_drowsiness_eq drowsy_fires_def cong: option.case_cong)

lemma process_face_calibrated:
  "CALIB_FRAMES \<le> calib_count s \<Longrightarrow> calib_base s = Some b \<Longrightarrow>
   process_face (s, t) (ear, mar)
     = Inr (s\<lparr>lip_hist := push_mar (lip_hist s) mar,
              COUNTER := (if ear < EYE_AR_THRESH then COUNTER s + 1 else 0)\<rparr>,
            t \<or> yawn_fires s mar \<or> drowsy_fires s ear)"
  by (auto simp: process_face_def Let_def eye_drowsiness_eq drowsy_fires_def yawn_fires_def)

lemma process_face_TypeError:
  "CALIB_FRAMES \<le> calib_count s \<Longrightarrow> calib_base s = None \<Longrightarrow>
   process_face (s, t) (ear, mar) = Inl TypeError"
  by (simp add: process_face_def Let_def)

lemma yawn_fires_calibrating: "calib_count s < CALIB_FRAMES \<Longrightarrow> \<not> yawn_fires s mar"
  by (simp add: yawn_fires_def)

text \<open>One face, in a state where the yawn test cannot raise.\<close>

lemma process_face_ok:
  assumes "calib_ok s"
  shows "\<exists>s'. process_face (s, t) (ear, mar) = Inr (s', t \<or> yawn_fires s mar \<or> drowsy_fires s ear)
           \<and> calib_ok s'
           \<and> lip_hist s' = push_mar (lip_hist s) mar
           \<and> calib_count s' = (if calib_count s < CALIB_FRAMES then calib_count s + 1 else calib_count s)
           \<and> COUNTER s' = (if ear < EYE_AR_THRESH then COUNTER s + 1 else 0)
           \<and> alert_active s' = alert_active s
           \<and> beep_start_time s' = beep_start_time s
           \<and> buzzer_active s' = buzzer_active s
           \<and> alcohol_test_active s' = alcohol_test_active s
           \<and> test_text s' = test_text s
           \<and> alcohol_test_failed s' = alcohol_test_failed s
           \<and> accident_detected s' = accident_detected s
           \<and> last_gps_coords s' = last_gps_coords s
           \<and> drowsiness_email_sent s' = drowsiness_email_sent s
           \<and> trace s' = trace s"
proof (cases "calib_count s < CALIB_FRAMES")
  case True
  then show ?thesis
    by (simp add: process_face_calibrating yawn_fires_calibrating calib_ok_def)
next
  case False
  with assms obtain b where b: "calib_base s = Some b" by (auto simp: calib_ok_def)
  from False have "CALIB_FRAMES \<le> calib_count s" by simp
  from process_face_calibrated [OF this b] False b show ?thesis
    by (simp add: calib_ok_def)
qed

lemma process_faces_ok:
  "calib_ok s \<Longrightarrow>
   \<exists>s' t'. process_faces (s, t) fs = Inr (s', t')
       \<and> calib_ok s'
       \<and> (t \<longrightarrow> t')
       \<and> alert_active s' = alert_active s
       \<and> beep_start_time s' = beep_start_time s
       \<and> buzzer_active s' = buzzer_active s
       \<and> alcohol_test_active s' = alcohol_test_active s
       \<and> test_text s' = test_text s
       \<and> alcohol_test_failed s' = alcohol_test_failed s
       \<and> accident_detected s' = accident_detected s
       \<and> last_gps_coords s' = last_gps_coords s
       \<and> drowsiness_email_sent s' = drowsiness_email_sent s
       \<and> trace s' = trace s"
proof (induction fs arbitrary: s t)
  case Nil
  then show ?case by simp
next
  case (Cons f fs)
  obtain ear mar where f: "f = (ear, mar)" by (cases f)
  from process_face_ok [OF Cons.prems, of t ear mar]
  obtain s1 where s1: "process_face (s, t) (ear, mar) = Inr (s1, t \<or> yawn_fires s mar \<or> drowsy_fires s ear)"
    and ok: "calib_ok s1"
    and fr: "alert_active s1 = alert_active s" "beep_start_time s1 = beep_start_time s"
      "buzzer_active s1 = buzzer_active s" "alcohol_test_active s1 = alcohol_test_active s"
      "test_text s1 = test_text s" "alcohol_test_failed s1 = alcohol_test_failed s"
      "accident_detected s1 = accident_detected s" "last_gps_coords s1 = last_gps_coords s"
      "drowsiness_email_sent s1 = drowsiness_email_sent s" "trace s1 = trace s"
    by blast
  from Cons.IH [OF ok, of "t \<or> yawn_fires s mar \<or> drowsy_fires s ear"] s1 f fr
  show ?case by auto
qed

lemma process_faces_calib_count:
  "calib_ok s \<Longrightarrow> process_faces (s, t) fs = Inr (s', t') \<Longrightarrow>
   calib_count s' = (if calib_count s < CALIB_FRAMES
                     then min CALIB_FRAMES (calib_count s + length fs) else calib_count s)"
proof (induction fs arbitrary: s t)
  case Nil
  then show ?case by auto
next
  case (Cons f fs)
  obtain ear mar where f: "f = (ear, mar)" by (cases f)
  from process_face_ok [OF Cons.prems(1), of t ear mar]
  obtain s1 where s1: "process_face (s, t) (ear, mar) = Inr (s1, t \<or> yawn_fires s mar \<or> drowsy_fires s ear)"
    and ok: "calib_ok s1"
    and cc: "calib_count s1 = (if calib_count s < CALIB_FRAMES then calib_count s + 1 else calib_count s)"
    by blast
  from Cons.prems(2) s1 f
  have "process_faces (s1, t \<or> yawn_fires s mar \<or> drowsy_fires s ear) fs = Inr (s', t')" by simp
  from Cons.IH [OF ok this] cc show ?case by (auto simp: min_def)
qed

lemma process_faces_lip_hist:
  "calib_ok s \<Longrightarrow> process_faces (s, t) fs = Inr (s', t') \<Longrightarrow>
   lip_hist s' = foldl push_mar (lip_hist s) (map snd fs)"
proof (induction fs arbitrary: s t)
  case Nil
  then show ?case by auto
next
  case (Cons f fs)
  obtain ear mar where f: "f = (ear, mar)" by (cases f)
  from process_face_ok [OF Cons.prems(1), of t ear mar]
  obtain s1 where s1: "process_face (s, t) (ear, mar) = Inr (s1, t \<or> yawn_fires s mar \<or> drowsy_fires s ear)"
    and ok: "calib_ok s1"
    and lh: "lip_hist s1 = push_mar (lip_hist s) mar"
    by blast
  from Cons.prems(2) s1 f
  have "process_faces (s1, t \<or> yawn_fires s mar \<or> drowsy_fires s ear) fs = Inr (s', t')" by simp
  from Cons.IH [OF ok this] lh f show ?case by simp
qed

lemma process_faces_counter:
  "calib_ok s \<Longrightarrow> process_faces (s, t) fs = Inr (s', t') \<Longrightarrow>
   \<forall>f\<in>set fs. fst f < EYE_AR_THRESH \<Longrightarrow> COUNTER s' = COUNTER s + length fs"
proof (induction fs arbitrary: s t)
  case Nil
  then show ?case by auto
next
  case (Cons f fs)
  obtain ear mar where f: "f = (ear, mar)" by (cases f)
  from process_face_ok [OF Cons.prems(1), of t ear mar]
  obtain s1 where s1: "process_face (s, t) (ear, mar) = Inr (s1, t \<or> yawn_fires s mar \<or> drowsy_fires s ear)"
    and ok: "calib_ok s1"
    and c: "COUNTER s1 = (if ear < EYE_AR_THRESH then COUNTER s + 1 else 0)"
    by blast
  from Cons.prems(2) s1 f
  have "process_faces (s1, t \<or> yawn_fires s mar \<or> drowsy_fires s ear) fs = Inr (s', t')" by simp
  from Cons.IH [OF ok this] Cons.prems(3) c f show ?case by simp
qed


lemma process_faces_trigger_low:
  "calib_ok s \<Longrightarrow> process_faces (s, t) fs = Inr (s', t') \<Longrightarrow>
   \<forall>f\<in>set fs. fst f < EYE_AR_THRESH \<Longrightarrow> fs \<noteq> [] \<Longrightarrow>
   EYE_AR_CONSEC_FRAMES \<le> COUNTER s + length fs \<Longrightarrow> t'"
proof (induction fs arbitrary: s t)
  case Nil
  then show ?case by auto
next
  case (Cons f fs)
  obtain ear mar where f: "f = (ear, mar)" by (cases f)
  from process_face_ok [OF Cons.prems(1), of t ear mar]
  obtain s1 where s1: "process_face (s, t) (ear, mar) = Inr (s1, t \<or> yawn_fires s mar \<or> drowsy_fires s ear)"
    and ok: "calib_ok s1"
    and c: "COUNTER s1 = (if ear < EYE_AR_THRESH then COUNTER s + 1 else 0)"
    by blast
  from Cons.prems(2) s1 f
  have run: "process_faces (s1, t \<or> yawn_fires s mar \<or> drowsy_fires s ear) fs = Inr (s', t')" by simp
  from Cons.prems(3) f have low: "ear < EYE_AR_THRESH" by simp
  show ?case
  proof (cases "fs = []")
    case True
    with run Cons.prems(5) low show ?thesis by (auto simp: drowsy_fires_def)
  next
    case False
    from c low Cons.prems(5) have "EYE_AR_CONSEC_FRAMES \<le> COUNTER s1 + length fs" by simp
    from Cons.IH [OF ok run _ False this] Cons.prems(3) show ?thesis by simp
  qed
qed

lemma alert_logic_fields:
  "alcohol_test_active (alert_logic t now s) = alcohol_test_active s"
  "test_text (alert_logic t now s) = test_text s"
  "alcohol_test_failed (alert_logic t now s) = alcohol_test_failed s"
  "accident_detected (alert_logic t now s) = accident_detected s"
  "last_gps_coords (alert_logic t now s) = last_gps_coords s"
  "COUNTER (alert_logic t now s) = COUNTER s"
  "lip_hist (alert_logic t now s) = lip_hist s"
  "calib_base (alert_logic t now s) = calib_base s"
  "calib_count (alert_logic t now s) = calib_count s"
  by (simp_all add: alert_logic_def Let_def play_beep_alert_def stop_beep_alert_def
        activate_external_buzzer_def deactivate_external_buzzer_def send_emergency_email_def)

lemma alert_logic_alert:
  "alert_active (alert_logic t now s) = (t \<or> (alert_active s \<and> accident_detected s))"
  "beep_start_time (alert_logic t now s)
     = (if t then (if alert_active s then beep_start_time s else Some now)
        else if accident_detected s then beep_start_time s else None)"
  "buzzer_active (alert_logic t now s)
     = (if t then buzzer_active s \<or> (alert_active s \<and> beep_elapsed now s)
        else buzzer_active s \<and> accident_detected s)"
  "drowsiness_email_sent (alert_logic t now s)
     = (if t then alert_active s \<and> (drowsiness_email_sent s \<or> beep_elapsed now s)
        else drowsiness_email_sent s)"
  by (auto simp: alert_logic_def Let_def play_beep_alert_def stop_beep_alert_def beep_elapsed_def
        activate_external_buzzer_def deactivate_external_buzzer_def send_emergency_email_def)

lemma alert_logic_trace:
  "trace (alert_logic t now s)
     = trace s @
       (if t then
          (if \<not> alert_active s then [PlayBeep]
           else if beep_elapsed now s then
             (if buzzer_active s then [] else [BuzzerOn])
             @ (if drowsiness_email_sent s then [] else [SendEmail Drowsiness (last_gps_coords s)])
           else [])
        else (if alert_active s \<and> \<not> accident_detected s then [StopBeep] else [])
             @ (if buzzer_active s \<and> \<not> accident_detected s then [BuzzerOff] else []))"
  by (auto simp: alert_logic_def Let_def play_beep_alert_def stop_beep_alert_def beep_elapsed_def
        activate_external_buzzer_def deactivate_external_buzzer_def send_emergency_email_def)

lemma keyboard_fields:
  "alert_active (keyboard i s) = alert_active s"
  "beep_start_time (keyboard i s) = beep_start_time s"
  "test_text (keyboard i s) = test_text s"
  "last_gps_coords (keyboard i s) = last_gps_coords s"
  "COUNTER (keyboard i s) = COUNTER s"
  "lip_hist (keyboard i s) = lip_hist s"
  "calib_base (keyboard i s) = calib_base s"
  "calib_count (keyboard i s) = calib_count s"
  "drowsiness_email_sent (keyboard i s) = drowsiness_email_sent s"
  by (simp_all add: keyboard_def activate_external_buzzer_def deactivate_external_buzzer_def
        send_emergency_email_def)

lemma keyboard_latch:
  "accident_detected (keyboard i s) = (accident_detected s \<and> in_key i \<noteq> CHR ''r'')"
  by (simp add: keyboard_def activate_external_buzzer_def deactivate_external_buzzer_def
        send_emergency_email_def)

lemma keyboard_sobriety:
  "alcohol_test_active (keyboard i s) = (alcohol_test_active s \<and> in_key i \<noteq> CHR ''s'')"
  "alcohol_test_failed (keyboard i s)
     = (if in_key i = CHR ''s'' \<and> alcohol_test_active s
        then \<not> verify_speech (test_text s) (in_speech i)
        else alcohol_test_failed s \<and> in_key i \<noteq> CHR ''r'')"
  "buzzer_active (keyboard i s)
     = (if in_key i = CHR ''s'' \<and> alcohol_test_active s
        then buzzer_active s \<or> \<not> verify_speech (test_text s) (in_speech i)
        else buzzer_active s \<and> in_key i \<noteq> CHR ''r'')"
  by (auto simp: keyboard_def activate_external_buzzer_def deactivate_external_buzzer_def
        send_emergency_email_def)

lemma keyboard_trace:
  "trace (keyboard i s)
     = trace s @
       (if in_key i = CHR ''s'' \<and> alcohol_test_active s then
          (if verify_speech (test_text s) (in_speech i) then []
           else [BuzzerOn, SendEmail AlcoholFailed (last_gps_coords s)])
        else if in_key i = CHR ''r'' then [BuzzerOff] else [])"
  by (auto simp: keyboard_def activate_external_buzzer_def deactivate_external_buzzer_def
        send_emergency_email_def)

lemma calib_ok_cong:
  "calib_count s' = calib_count s \<Longrightarrow> calib_base s' = calib_base s \<Longrightarrow> calib_ok s' = calib_ok s"
  by (simp add: calib_ok_def)

text \<open>Face detection in a state where the yawn test cannot raise.\<close>

lemma face_detection_ok:
  assumes "calib_ok s"
  shows "\<exists>s' t. face_detection fs s = Inr (s', t)
           \<and> calib_ok s'
           \<and> alcohol_test_active s' = alcohol_test_active s
           \<and> test_text s' = test_text s
           \<and> alcohol_test_failed s' = alcohol_test_failed s
           \<and> accident_detected s' = accident_detected s
           \<and> last_gps_coords s' = last_gps_coords s
           \<and> drowsiness_email_sent s' = drowsiness_email_sent s
           \<and> (fs = [] \<longrightarrow> s' = no_face s \<and> \<not> t)
           \<and> (fs \<noteq> [] \<longrightarrow> process_faces (s, False) fs = Inr (s', t)
                 \<and> alert_active s' = alert_active s
                 \<and> beep_start_time s' = beep_start_time s
                 \<and> buzzer_active s' = buzzer_active s
                 \<and> trace s' = trace s)"
proof (cases "fs = []")
  case True
  have "calib_ok (no_face s) = calib_ok s"
    by (rule calib_ok_cong) (simp_all add: no_face_fields)
  with True assms show ?thesis
    by (auto simp: face_detection_def no_face_fields)
next
  case False
  from process_faces_ok [OF assms, of False fs] False show ?thesis
    by (auto simp: face_detection_def)
qed

subsection \<open>One iteration\<close>

lemma tick_ok:
  assumes "calib_ok s"
  shows "\<exists>s2. face_detection (in_rects i) (sensors pf i s) = Inr (s2, trigger_of pf s i)
           \<and> tick pf s i = Inr (keyboard i (alert_logic (trigger_of pf s i) (in_now i) s2))
           \<and> calib_ok s2
           \<and> calib_ok (keyboard i (alert_logic (trigger_of pf s i) (in_now i) s2))
           \<and> alcohol_test_active s2 = (alcohol_test_active s \<or> check_alcohol_level (in_gas i))
           \<and> alcohol_test_failed s2 = alcohol_test_failed s
           \<and> accident_detected s2 = latched_in s i
           \<and> last_gps_coords s2 = parse_gps_data pf (in_gps i) (last_gps_coords s)
           \<and> drowsiness_email_sent s2 = drowsiness_email_sent s
           \<and> (in_rects i = [] \<longrightarrow> s2 = no_face (sensors pf i s) \<and> \<not> trigger_of pf s i)
           \<and> (in_rects i \<noteq> [] \<longrightarrow>
                 process_faces (sensors pf i s, False) (in_rects i) = Inr (s2, trigger_of pf s i)
                 \<and> alert_active s2 = alert_active s
                 \<and> beep_start_time s2 = beep_start_time s
                 \<and> buzzer_active s2 = buzzer_active (sensors pf i s)
                 \<and> trace s2 = trace (sensors pf i s))"
proof -
  have "calib_ok (sensors pf i s) = calib_ok s"
    by (rule calib_ok_cong) (simp_all add: sensors_fields)
  with assms have ok1: "calib_ok (sensors pf i s)" by simp
  from face_detection_ok [OF ok1, of "in_rects i"]
  obtain s2 t where fd: "face_detection (in_rects i) (sensors pf i s) = Inr (s2, t)"
    and ok2: "calib_ok s2"
    and fr: "alcohol_test_active s2 = alcohol_test_active (sensors pf i s)"
      "alcohol_test_failed s2 = alcohol_test_failed (sensors pf i s)"
      "accident_detected s2 = accident_detected (sensors pf i s)"
      "last_gps_coords s2 = last_gps_coords (sensors pf i s)"
      "drowsiness_email_sent s2 = drowsiness_email_sent (sensors pf i s)"
    and nf: "in_rects i = [] \<longrightarrow> s2 = no_face (sensors pf i s) \<and> \<not> t"
    and fc: "in_rects i \<noteq> [] \<longrightarrow> process_faces (sensors pf i s, False) (in_rects i) = Inr (s2, t)
                 \<and> alert_active s2 = alert_active (sensors pf i s)
                 \<and> beep_start_time s2 = beep_start_time (sensors pf i s)
                 \<and> buzzer_active s2 = buzzer_active (sensors pf i s)
                 \<and> trace s2 = trace (sensors pf i s)"
    by blast
  from fd have t: "trigger_of pf s i = t" by (simp add: trigger_of_def)
  have "calib_ok (keyboard i (alert_logic t (in_now i) s2)) = calib_ok s2"
    by (rule calib_ok_cong) (simp_all add: keyboard_fields alert_logic_fields)
  with ok2 have ok3: "calib_ok (keyboard i (alert_logic t (in_now i) s2))" by simp
  from fd have tk: "tick pf s i = Inr (keyboard i (alert_logic t (in_now i) s2))"
    by (simp add: tick_def)
  from fd t tk ok2 ok3 fr nf fc show ?thesis
    by (auto simp: sensors_fields)
qed

lemma calib_ok_init: "calib_ok init_state"
  by (simp add: calib_ok_def init_state_def CALIB_FRAMES_def)

lemma calib_ok_cleanup: "calib_ok (cleanup s) = calib_ok s"
  by (rule calib_ok_cong)
     (simp_all add: cleanup_def Let_def stop_beep_alert_def deactivate_external_buzzer_def)

text \<open>The loop never raises from a state where the yawn test cannot raise.\<close>

lemma main_loop_ok:
  "calib_ok s \<Longrightarrow> \<exists>s'. main_loop pf s is = Inr s' \<and> calib_ok s'"
proof (induction "is" arbitrary: s)
  case Nil
  then show ?case by simp
next
  case (Cons i "is")
  from tick_ok [OF Cons.prems, of i pf]
  obtain s1 where s1: "tick pf s i = Inr s1" and ok: "calib_ok s1" by blast
  from Cons.IH [OF ok] Cons.IH [OF Cons.prems] s1 ok show ?case
    by (auto simp: calib_ok_cleanup)
qed

subsection \<open>The states and inputs of the examples\<close>

lemmas input_defs = quiet_input_def tilt_input_def face_input_def

lemma calib_ok_examples:
  "calib_ok nineteen_closed" "calib_ok eighteen_closed" "calib_ok alerting" "calib_ok escalated"
  "calib_ok alerting_latched" "calib_ok (calibrated_then m)"
  by (simp_all add: calib_ok_def nineteen_closed_def eighteen_closed_def alerting_def
        escalated_def alerting_latched_def calibrated_then_def init_state_def CALIB_FRAMES_def)


lemma alerting_reached:
  "main_loop decimal_float nineteen_closed [closed_eyes 100] = Inr alerting"
  "main_loop decimal_float alerting [closed_eyes 103, closed_eyes 107] = Inr escalated"
  by code_simp+

lemma alerting_latched_reached:
  "main_loop decimal_float nineteen_closed
     [closed_eyes 100, (closed_eyes 101)\<lparr>in_tilt := TiltAngle 50\<rparr>] = Inr alerting_latched"
  by code_simp

lemma calibrated_then_reached:
  "main_loop decimal_float init_state
     (replicate 30 (mouth_input 0.2) @ replicate 9 (mouth_input 0.35)) = Inr (calibrated_then 0.35)"
  "main_loop decimal_float init_state
     (replicate 30 (mouth_input 0.2) @ replicate 9 (mouth_input 0.33)) = Inr (calibrated_then 0.33)"
  by code_simp+

subsection \<open>Accident latch\<close>

lemma check_tilt_angle_TiltAngle:
  "check_tilt_angle (TiltAngle a) = (45 < a, a)"
  by (simp add: check_tilt_angle_def TILT_THRESHOLD_def)

text \<open>What one iteration appends to the trace after the sensor block.\<close>

lemma tick_trace:
  assumes "calib_ok s"
  shows "\<exists>s' xs. tick pf s i = Inr s' \<and> trace s' = trace (sensors pf i s) @ xs
           \<and> filter is_accident_email xs = []"
proof -
  from tick_ok [OF assms, of i pf]
  obtain s2 where tk: "tick pf s i = Inr (keyboard i (alert_logic (trigger_of pf s i) (in_now i) s2))"
    and nf: "in_rects i = [] \<longrightarrow> s2 = no_face (sensors pf i s)"
    and fc: "in_rects i \<noteq> [] \<longrightarrow> trace s2 = trace (sensors pf i s)"
    by blast
  have "\<exists>ys. trace s2 = trace (sensors pf i s) @ ys \<and> filter is_accident_email ys = []"
  proof (cases "in_rects i = []")
    case True
    with nf show ?thesis by (simp add: no_face_alert is_accident_email_def)
  next
    case False
    with fc show ?thesis by simp
  qed
  then obtain ys where ys: "trace s2 = trace (sensors pf i s) @ ys" "filter is_accident_email ys = []"
    by blast
  obtain zs where zs: "trace (alert_logic (trigger_of pf s i) (in_now i) s2) = trace s2 @ zs"
      "filter is_accident_email zs = []"
    by (simp add: alert_logic_trace is_accident_email_def)
  obtain ws where ws: "trace (keyboard i (alert_logic (trigger_of pf s i) (in_now i) s2))
        = trace (alert_logic (trigger_of pf s i) (in_now i) s2) @ ws"
      "filter is_accident_email ws = []"
    by (simp add: keyboard_trace is_accident_email_def)
  from tk ys zs ws show ?thesis by simp
qed

lemma tick_accident:
  assumes "calib_ok s"
  shows "\<exists>s'. tick pf s i = Inr s' \<and> calib_ok s'
           \<and> accident_detected s' = (latched_in s i \<and> in_key i \<noteq> CHR ''r'')
           \<and> filter is_accident_email (emitted s s')
               = (if \<not> accident_detected s \<and> fst (check_tilt_angle (in_tilt i))
                  then [SendEmail (Accident (snd (check_tilt_angle (in_tilt i))))
                          (parse_gps_data pf (in_gps i) (last_gps_coords s))]
                  else [])
           \<and> accident_emails s'
               = accident_emails s
                 + (if \<not> accident_detected s \<and> fst (check_tilt_angle (in_tilt i)) then 1 else 0)
           \<and> (\<not> accident_detected s \<and> fst (check_tilt_angle (in_tilt i))
                \<longrightarrow> BuzzerOn \<in> set (emitted s s') \<and> (in_key i \<noteq> CHR ''r'' \<longrightarrow> buzzer_active s'))"
proof -
  from tick_ok [OF assms, of i pf]
  obtain s2 where tk: "tick pf s i = Inr (keyboard i (alert_logic (trigger_of pf s i) (in_now i) s2))"
    and ok: "calib_ok (keyboard i (alert_logic (trigger_of pf s i) (in_now i) s2))"
    and acc: "accident_detected s2 = latched_in s i"
    and nf: "in_rects i = [] \<longrightarrow> s2 = no_face (sensors pf i s)"
    and fc: "in_rects i \<noteq> [] \<longrightarrow> buzzer_active s2 = buzzer_active (sensors pf i s)"
    by blast
  from tick_trace [OF assms, of pf i] tk
  obtain xs where xs: "trace (keyboard i (alert_logic (trigger_of pf s i) (in_now i) s2))
        = trace (sensors pf i s) @ xs" "filter is_accident_email xs = []"
    by auto
  let ?s' = "keyboard i (alert_logic (trigger_of pf s i) (in_now i) s2)"
  let ?new = "\<not> accident_detected s \<and> fst (check_tilt_angle (in_tilt i))"
  have latch: "accident_detected ?s' = (latched_in s i \<and> in_key i \<noteq> CHR ''r'')"
    by (simp add: keyboard_latch alert_logic_fields acc)
  have em: "emitted s ?s'
        = (if ?new then [BuzzerOn, SendEmail (Accident (snd (check_tilt_angle (in_tilt i))))
                                     (parse_gps_data pf (in_gps i) (last_gps_coords s))]
           else []) @ xs"
    by (simp add: emitted_def xs(1) sensors_fields)
  have f: "filter is_accident_email (emitted s ?s')
        = (if ?new then [SendEmail (Accident (snd (check_tilt_angle (in_tilt i))))
                           (parse_gps_data pf (in_gps i) (last_gps_coords s))]
           else [])"
    by (simp add: em xs(2) is_accident_email_def)
  have n: "accident_emails ?s' = accident_emails s + (if ?new then 1 else 0)"
    by (simp add: accident_emails_def xs sensors_fields is_accident_email_def)
  have b: "?new \<longrightarrow> BuzzerOn \<in> set (emitted s ?s')"
    by (simp add: em)
  have bz: "?new \<and> in_key i \<noteq> CHR ''r'' \<longrightarrow> buzzer_active ?s'"
  proof (intro impI)
    assume a: "?new \<and> in_key i \<noteq> CHR ''r''"
    then have l: "latched_in s i" by (simp add: latched_in_def)
    from a have b1: "buzzer_active (sensors pf i s)" by (simp add: sensors_fields)
    from l have a1: "accident_detected (sensors pf i s)" by (simp add: sensors_fields)
    have b2: "buzzer_active s2"
    proof (cases "in_rects i = []")
      case True
      with nf b1 a1 show ?thesis by (simp add: no_face_alert)
    next
      case False
      with fc b1 show ?thesis by simp
    qed
    from b2 acc l a show "buzzer_active ?s'"
      by (simp add: keyboard_sobriety alert_logic_alert alert_logic_fields)
  qed
  from tk ok latch f n b bz show ?thesis by auto
qed

lemma tick_buzzer_latched:
  assumes "calib_ok s" "accident_detected s" "buzzer_active s" "in_key i \<noteq> CHR ''r''"
  shows "\<exists>s'. tick pf s i = Inr s' \<and> buzzer_active s'"
proof -
  from tick_ok [OF assms(1), of i pf]
  obtain s2 where tk: "tick pf s i = Inr (keyboard i (alert_logic (trigger_of pf s i) (in_now i) s2))"
    and acc: "accident_detected s2 = latched_in s i"
    and nf: "in_rects i = [] \<longrightarrow> s2 = no_face (sensors pf i s)"
    and fc: "in_rects i \<noteq> [] \<longrightarrow> buzzer_active s2 = buzzer_active (sensors pf i s)"
    by blast
  from assms(2) have l: "latched_in s i" by (simp add: latched_in_def)
  from assms(3) have b1: "buzzer_active (sensors pf i s)" by (simp add: sensors_fields)
  from l have a1: "accident_detected (sensors pf i s)" by (simp add: sensors_fields)
  have b2: "buzzer_active s2"
  proof (cases "in_rects i = []")
    case True
    with nf b1 a1 show ?thesis by (simp add: no_face_alert)
  next
    case False
    with fc b1 show ?thesis by simp
  qed
  from b2 acc l assms(4) have "buzzer_active (keyboard i (alert_logic (trigger_of pf s i) (in_now i) s2))"
    by (simp add: keyboard_sobriety alert_logic_alert alert_logic_fields)
  with tk show ?thesis by simp
qed

lemma cleanup_latch:
  "accident_detected (cleanup s) = accident_detected s"
  "accident_emails (cleanup s) = accident_emails s"
  by (simp_all add: cleanup_def Let_def stop_beep_alert_def deactivate_external_buzzer_def
        accident_emails_def is_accident_email_def)

lemma main_loop_latched:
  "calib_ok s \<Longrightarrow> accident_detected s \<Longrightarrow> \<forall>i\<in>set is. in_key i \<noteq> CHR ''r'' \<Longrightarrow>
   \<exists>s'. main_loop pf s is = Inr s' \<and> accident_detected s' \<and> accident_emails s' = accident_emails s"
proof (induction "is" arbitrary: s)
  case Nil
  then show ?case by simp
next
  case (Cons i "is")
  from Cons.prems(3) have k: "in_key i \<noteq> CHR ''r''" and rest: "\<forall>i\<in>set is. in_key i \<noteq> CHR ''r''"
    by simp_all
  from tick_accident [OF Cons.prems(1), of pf i] Cons.prems(2) k
  obtain s1 where s1: "tick pf s i = Inr s1" and ok: "calib_ok s1"
    and l: "accident_detected s1" and n: "accident_emails s1 = accident_emails s"
    by (auto simp: latched_in_def)
  from Cons.IH [OF ok l rest] Cons.IH [OF Cons.prems(1) Cons.prems(2) rest] s1 l n
  show ?case by (auto simp: cleanup_latch)
qed

text \<open>
  Claim C3. The accident latch is one-shot. In one iteration the latch is set exactly when it
  was set or the tilt angle exceeds 45, and survives unless the key \<open>r\<close> is pressed; an
  accident notification is sent exactly when the latch was clear and the angle exceeds 45,
  together with a buzzer activation. While the latch is set and \<open>r\<close> is not pressed, no run
  of the loop, whatever the tilt values, clears it or sends another accident notification.
  For the tilt sequence 10, 50, 10, 60 the single notification (angle 50) is sent in the
  second iteration, and the buzzer is active from then on.
\<close>

theorem accident_latch_one_shot:
  assumes "calib_ok s"
  shows "(\<exists>s'. tick pf s i = Inr s'
            \<and> accident_detected s' = (latched_in s i \<and> in_key i \<noteq> CHR ''r'')
            \<and> accident_emails s'
                = accident_emails s
                  + (if \<not> accident_detected s \<and> fst (check_tilt_angle (in_tilt i)) then 1 else 0)
            \<and> (\<not> accident_detected s \<and> fst (check_tilt_angle (in_tilt i))
                 \<longrightarrow> BuzzerOn \<in> set (emitted s s')
                     \<and> (in_key i \<noteq> CHR ''r'' \<longrightarrow> buzzer_active s')))
         \<and> (accident_detected s \<and> (\<forall>j\<in>set ins. in_key j \<noteq> CHR ''r'')
             \<longrightarrow> (\<exists>s'. main_loop pf s ins = Inr s' \<and> accident_detected s'
                       \<and> accident_emails s' = accident_emails s))
         \<and> (\<not> accident_detected s
             \<and> (\<forall>j\<in>set [i1, i2, i3, i4].
                    in_frame j \<and> in_key j \<noteq> CHR ''q'' \<and> in_key j \<noteq> CHR ''r'')
             \<and> in_tilt i1 = TiltAngle 10 \<and> in_tilt i2 = TiltAngle 50
             \<and> in_tilt i3 = TiltAngle 10 \<and> in_tilt i4 = TiltAngle 60
             \<longrightarrow> (\<exists>s1 s2 s3 s4.
                     main_loop pf s [i1] = Inr s1
                     \<and> \<not> accident_detected s1 \<and> accident_emails s1 = accident_emails s
                     \<and> main_loop pf s [i1, i2] = Inr s2
                     \<and> accident_detected s2 \<and> accident_emails s2 = accident_emails s + 1
                     \<and> buzzer_active s2
                     \<and> filter is_accident_email (emitted s1 s2)
                         = [SendEmail (Accident 50)
                              (parse_gps_data pf (in_gps i2) (last_gps_coords s1))]
                     \<and> main_loop pf s [i1, i2, i3] = Inr s3
                     \<and> accident_detected s3 \<and> accident_emails s3 = accident_emails s + 1
                     \<and> buzzer_active s3
                     \<and> main_loop pf s [i1, i2, i3, i4] = Inr s4
                     \<and> accident_detected s4 \<and> accident_emails s4 = accident_emails s + 1
                     \<and> buzzer_active s4))"
proof (intro conjI impI)
  from tick_accident [OF assms, of pf i]
  show "\<exists>s'. tick pf s i = Inr s'
            \<and> accident_detected s' = (latched_in s i \<and> in_key i \<noteq> CHR ''r'')
            \<and> accident_emails s'
                = accident_emails s
                  + (if \<not> accident_detected s \<and> fst (check_tilt_angle (in_tilt i)) then 1 else 0)
            \<and> (\<not> accident_detected s \<and> fst (check_tilt_angle (in_tilt i))
                 \<longrightarrow> BuzzerOn \<in> set (emitted s s')
                     \<and> (in_key i \<noteq> CHR ''r'' \<longrightarrow> buzzer_active s'))"
    by blast
next
  assume "accident_detected s \<and> (\<forall>j\<in>set ins. in_key j \<noteq> CHR ''r'')"
  with main_loop_latched [OF assms, of ins pf]
  show "\<exists>s'. main_loop pf s ins = Inr s' \<and> accident_detected s'
            \<and> accident_emails s' = accident_emails s"
    by blast
next
  assume a: "\<not> accident_detected s
             \<and> (\<forall>j\<in>set [i1, i2, i3, i4].
                    in_frame j \<and> in_key j \<noteq> CHR ''q'' \<and> in_key j \<noteq> CHR ''r'')
             \<and> in_tilt i1 = TiltAngle 10 \<and> in_tilt i2 = TiltAngle 50
             \<and> in_tilt i3 = TiltAngle 10 \<and> in_tilt i4 = TiltAngle 60"
  then have na: "\<not> accident_detected s"
    and fr: "in_frame i1" "in_frame i2" "in_frame i3" "in_frame i4"
    and kq: "in_key i1 \<noteq> CHR ''q''" "in_key i2 \<noteq> CHR ''q''" "in_key i3 \<noteq> CHR ''q''"
            "in_key i4 \<noteq> CHR ''q''"
    and kr: "in_key i1 \<noteq> CHR ''r''" "in_key i2 \<noteq> CHR ''r''" "in_key i3 \<noteq> CHR ''r''"
            "in_key i4 \<noteq> CHR ''r''"
    and t1: "check_tilt_angle (in_tilt i1) = (False, 10)"
    and t2: "check_tilt_angle (in_tilt i2) = (True, 50)"
    and t3: "check_tilt_angle (in_tilt i3) = (False, 10)"
    and t4: "check_tilt_angle (in_tilt i4) = (True, 60)"
    by (simp_all add: check_tilt_angle_TiltAngle)
  from tick_accident [OF assms, of pf i1]
  obtain s1 where s1: "tick pf s i1 = Inr s1" and ok1: "calib_ok s1"
    and l1: "\<not> accident_detected s1" and n1: "accident_emails s1 = accident_emails s"
    unfolding latched_in_def t1 using na kr(1) by auto
  from tick_accident [OF ok1, of pf i2]
  obtain s2 where s2: "tick pf s1 i2 = Inr s2" and ok2: "calib_ok s2"
    and l2: "accident_detected s2" and n2: "accident_emails s2 = accident_emails s1 + 1"
    and b2: "buzzer_active s2"
    and e2: "filter is_accident_email (emitted s1 s2)
              = [SendEmail (Accident 50) (parse_gps_data pf (in_gps i2) (last_gps_coords s1))]"
    unfolding latched_in_def t2 using l1 kr(2) by auto
  from tick_accident [OF ok2, of pf i3]
  obtain s3 where s3: "tick pf s2 i3 = Inr s3" and ok3: "calib_ok s3"
    and l3: "accident_detected s3" and n3: "accident_emails s3 = accident_emails s2"
    unfolding latched_in_def t3 using l2 kr(3) by auto
  from tick_buzzer_latched [OF ok2 l2 b2 kr(3), of pf] s3 have b3: "buzzer_active s3" by auto
  from tick_accident [OF ok3, of pf i4]
  obtain s4 where s4: "tick pf s3 i4 = Inr s4"
    and l4: "accident_detected s4" and n4: "accident_emails s4 = accident_emails s3"
    unfolding latched_in_def t4 using l3 kr(4) by auto
  from tick_buzzer_latched [OF ok3 l3 b3 kr(4), of pf] s4 have b4: "buzzer_active s4" by auto
  from fr kq s1 s2 s3 s4 have
    "main_loop pf s [i1] = Inr s1" "main_loop pf s [i1, i2] = Inr s2"
    "main_loop pf s [i1, i2, i3] = Inr s3" "main_loop pf s [i1, i2, i3, i4] = Inr s4"
    by simp_all
  with l1 n1 l2 n2 b2 e2 l3 n3 b3 l4 n4 b4
  show "\<exists>s1 s2 s3 s4.
          main_loop pf s [i1] = Inr s1
          \<and> \<not> accident_detected s1 \<and> accident_emails s1 = accident_emails s
          \<and> main_loop pf s [i1, i2] = Inr s2
          \<and> accident_detected s2 \<and> accident_emails s2 = accident_emails s + 1
          \<and> buzzer_active s2
          \<and> filter is_accident_email (emitted s1 s2)
              = [SendEmail (Accident 50) (parse_gps_data pf (in_gps i2) (last_gps_coords s1))]
          \<and> main_loop pf s [i1, i2, i3] = Inr s3
          \<and> accident_detected s3 \<and> accident_emails s3 = accident_emails s + 1
          \<and> buzzer_active s3
          \<and> main_loop pf s [i1, i2, i3, i4] = Inr s4
          \<and> accident_detected s4 \<and> accident_emails s4 = accident_emails s + 1
          \<and> buzzer_active s4"
    by simp
qed

text \<open>
  The run of the specification from the initial state; the first tilt above 45 from the
  initial state; and two further tilt values while the latch is set.
\<close>

theorem accident_latch_one_shot_witness:
  "calib_ok init_state
   \<and> (case main_loop decimal_float init_state
              [tilt_input 10, tilt_input 50, tilt_input 10, tilt_input 60] of
         Inl e \<Rightarrow> False
       | Inr s4 \<Rightarrow> accident_detected s4 \<and> accident_emails s4 = 1 \<and> buzzer_active s4)
   \<and> check_tilt_angle (in_tilt (tilt_input 50)) = (True, 50)
   \<and> (\<exists>s'. tick decimal_float init_state (tilt_input 50) = Inr s' \<and> accident_detected s'
          \<and> accident_emails s' = 1 \<and> BuzzerOn \<in> set (emitted init_state s') \<and> buzzer_active s')
   \<and> calib_ok alerting_latched \<and> accident_detected alerting_latched
   \<and> accident_emails alerting_latched = 1
   \<and> (\<exists>s'. main_loop decimal_float alerting_latched [tilt_input 60, tilt_input 10] = Inr s'
          \<and> accident_detected s' \<and> accident_emails s' = 1)"
proof -
  have h: "\<not> accident_detected init_state
           \<and> (\<forall>j\<in>set [tilt_input 10, tilt_input 50, tilt_input 10, tilt_input 60].
                  in_frame j \<and> in_key j \<noteq> CHR ''q'' \<and> in_key j \<noteq> CHR ''r'')
           \<and> in_tilt (tilt_input 10) = TiltAngle 10 \<and> in_tilt (tilt_input 50) = TiltAngle 50
           \<and> in_tilt (tilt_input 10) = TiltAngle 10 \<and> in_tilt (tilt_input 60) = TiltAngle 60"
    by (simp add: init_state_def input_defs)
  have z: "accident_emails init_state = 0"
    by (simp add: accident_emails_def init_state_def)
  from accident_latch_one_shot [OF calib_ok_init, where pf = decimal_float
      and ?i1.0 = "tilt_input 10" and ?i2.0 = "tilt_input 50"
      and ?i3.0 = "tilt_input 10" and ?i4.0 = "tilt_input 60"] h
  obtain s4 where "main_loop decimal_float init_state
              [tilt_input 10, tilt_input 50, tilt_input 10, tilt_input 60] = Inr s4"
    and "accident_detected s4" "accident_emails s4 = accident_emails init_state + 1"
        "buzzer_active s4"
    by blast
  with z have c3: "(case main_loop decimal_float init_state
              [tilt_input 10, tilt_input 50, tilt_input 10, tilt_input 60] of
         Inl e \<Rightarrow> False
       | Inr s4 \<Rightarrow> accident_detected s4 \<and> accident_emails s4 = 1 \<and> buzzer_active s4)"
    by simp
  have t: "check_tilt_angle (in_tilt (tilt_input 50)) = (True, 50)"
    by (simp add: input_defs check_tilt_angle_TiltAngle)
  have k: "in_key (tilt_input 50) \<noteq> CHR ''r''" "\<not> accident_detected init_state"
    by (simp_all add: input_defs init_state_def)
  from accident_latch_one_shot [OF calib_ok_init, where pf = decimal_float
      and i = "tilt_input 50"] t k z
  have c1: "\<exists>s'. tick decimal_float init_state (tilt_input 50) = Inr s' \<and> accident_detected s'
          \<and> accident_emails s' = 1 \<and> BuzzerOn \<in> set (emitted init_state s') \<and> buzzer_active s'"
    by (auto simp: latched_in_def)
  have l: "accident_detected alerting_latched" "accident_emails alerting_latched = 1"
    "\<forall>j\<in>set [tilt_input 60, tilt_input 10]. in_key j \<noteq> CHR ''r''"
    by (simp_all add: alerting_latched_def accident_emails_def is_accident_email_def input_defs)
  from accident_latch_one_shot [OF calib_ok_examples(5), where pf = decimal_float
      and ins = "[tilt_input 60, tilt_input 10]"] l
  have c2: "\<exists>s'. main_loop decimal_float alerting_latched [tilt_input 60, tilt_input 10] = Inr s'
          \<and> accident_detected s' \<and> accident_emails s' = 1"
    by auto
  from calib_ok_init c3 t c1 calib_ok_examples(5) l(1,2) c2 show ?thesis by blast
qed

subsection \<open>The drowsiness/yawn concern in one iteration\<close>

lemma beep_elapsed_cong:
  "beep_start_time s' = beep_start_time s \<Longrightarrow> beep_elapsed now s' = beep_elapsed now s"
  by (simp add: beep_elapsed_def)

text \<open>Alert logic and keyboard block together, from the state after face detection.\<close>

lemma alert_keyboard:
  "\<exists>ys. trace (keyboard i (alert_logic t now s2)) = trace s2 @ ys
        \<and> filter is_tone ys
            = (if t then (if alert_active s2 then [] else [PlayBeep])
               else if alert_active s2 \<and> \<not> accident_detected s2 then [StopBeep] else [])
        \<and> filter is_drowsiness_email ys
            = (if t \<and> alert_active s2 \<and> beep_elapsed now s2 \<and> \<not> drowsiness_email_sent s2
               then [SendEmail Drowsiness (last_gps_coords s2)] else [])"
  by (simp add: keyboard_trace alert_logic_trace is_tone_def is_drowsiness_email_def)

text \<open>Sensor block and face detection together.\<close>

lemma sensors_faces:
  assumes "calib_ok s"
  shows "\<exists>s2 xs. face_detection (in_rects i) (sensors pf i s) = Inr (s2, trigger_of pf s i)
           \<and> tick pf s i = Inr (keyboard i (alert_logic (trigger_of pf s i) (in_now i) s2))
           \<and> calib_ok (keyboard i (alert_logic (trigger_of pf s i) (in_now i) s2))
           \<and> accident_detected s2 = latched_in s i
           \<and> drowsiness_email_sent s2 = drowsiness_email_sent s
           \<and> alert_active s2
               = (alert_active s
                  \<and> (in_rects i = [] \<longrightarrow> latched_in s i \<or> alcohol_test_active s2))
           \<and> beep_start_time s2
               = (if in_rects i = [] \<and> \<not> latched_in s i \<and> \<not> alcohol_test_active s2
                  then None else beep_start_time s)
           \<and> (in_rects i = [] \<longrightarrow> \<not> trigger_of pf s i)
           \<and> trace s2 = trace s @ xs
           \<and> filter is_drowsiness_email xs = []
           \<and> filter is_tone xs
               = (if in_rects i = [] \<and> \<not> latched_in s i \<and> \<not> alcohol_test_active s2
                     \<and> alert_active s
                  then [StopBeep] else [])"
proof -
  from tick_ok [OF assms, of i pf]
  obtain s2 where fd: "face_detection (in_rects i) (sensors pf i s) = Inr (s2, trigger_of pf s i)"
    and tk: "tick pf s i = Inr (keyboard i (alert_logic (trigger_of pf s i) (in_now i) s2))"
    and ok: "calib_ok (keyboard i (alert_logic (trigger_of pf s i) (in_now i) s2))"
    and acc: "accident_detected s2 = latched_in s i"
    and ata: "alcohol_test_active s2 = (alcohol_test_active s \<or> check_alcohol_level (in_gas i))"
    and des: "drowsiness_email_sent s2 = drowsiness_email_sent s"
    and nf: "in_rects i = [] \<longrightarrow> s2 = no_face (sensors pf i s) \<and> \<not> trigger_of pf s i"
    and fc: "in_rects i \<noteq> [] \<longrightarrow>
                 alert_active s2 = alert_active s
                 \<and> beep_start_time s2 = beep_start_time s
                 \<and> trace s2 = trace (sensors pf i s)"
    by blast
  have "\<exists>xs. alert_active s2
               = (alert_active s
                  \<and> (in_rects i = [] \<longrightarrow> latched_in s i \<or> alcohol_test_active s2))
           \<and> beep_start_time s2
               = (if in_rects i = [] \<and> \<not> latched_in s i \<and> \<not> alcohol_test_active s2
                  then None else beep_start_time s)
           \<and> trace s2 = trace s @ xs
           \<and> filter is_drowsiness_email xs = []
           \<and> filter is_tone xs
               = (if in_rects i = [] \<and> \<not> latched_in s i \<and> \<not> alcohol_test_active s2
                     \<and> alert_active s
                  then [StopBeep] else [])"
  proof (cases "in_rects i = []")
    case True
    with nf have s2: "s2 = no_face (sensors pf i s)" by simp
    from True show ?thesis
      unfolding s2
      by (simp add: no_face_alert no_face_fields sensors_fields is_tone_def
            is_drowsiness_email_def)
  next
    case False
    with fc show ?thesis
      by (simp add: sensors_fields is_tone_def is_drowsiness_email_def)
  qed
  with fd tk ok acc des nf show ?thesis by blast
qed

lemma tick_drowsiness:
  assumes "calib_ok s"
  shows "\<exists>s'. tick pf s i = Inr s' \<and> calib_ok s'
           \<and> alert_active s' = (trigger_of pf s i \<or> (alert_active s \<and> latched_in s i))
           \<and> beep_start_time s'
               = (if trigger_of pf s i
                  then (if alert_active s then beep_start_time s else Some (in_now i))
                  else if latched_in s i then beep_start_time s else None)
           \<and> drowsiness_email_sent s'
               = (if trigger_of pf s i
                  then alert_active s \<and> (drowsiness_email_sent s \<or> beep_elapsed (in_now i) s)
                  else drowsiness_email_sent s)
           \<and> drowsiness_emails s'
               = drowsiness_emails s
                 + (if trigger_of pf s i \<and> alert_active s \<and> beep_elapsed (in_now i) s
                       \<and> \<not> drowsiness_email_sent s then 1 else 0)
           \<and> filter is_tone (emitted s s')
               = (if trigger_of pf s i then (if alert_active s then [] else [PlayBeep])
                  else if alert_active s \<and> \<not> latched_in s i then [StopBeep] else [])"
proof -
  let ?t = "trigger_of pf s i"
  from sensors_faces [OF assms, of i pf]
  obtain s2 xs where tk: "tick pf s i = Inr (keyboard i (alert_logic ?t (in_now i) s2))"
    and ok: "calib_ok (keyboard i (alert_logic ?t (in_now i) s2))"
    and acc: "accident_detected s2 = latched_in s i"
    and des: "drowsiness_email_sent s2 = drowsiness_email_sent s"
    and aa: "alert_active s2
               = (alert_active s
                  \<and> (in_rects i = [] \<longrightarrow> latched_in s i \<or> alcohol_test_active s2))"
    and bs: "beep_start_time s2
               = (if in_rects i = [] \<and> \<not> latched_in s i \<and> \<not> alcohol_test_active s2
                  then None else beep_start_time s)"
    and nt: "in_rects i = [] \<longrightarrow> \<not> ?t"
    and xs: "trace s2 = trace s @ xs" "filter is_drowsiness_email xs = []"
      "filter is_tone xs
               = (if in_rects i = [] \<and> \<not> latched_in s i \<and> \<not> alcohol_test_active s2
                     \<and> alert_active s
                  then [StopBeep] else [])"
    by blast
  let ?s' = "keyboard i (alert_logic ?t (in_now i) s2)"
  from alert_keyboard [of i ?t "in_now i" s2]
  obtain ys where ys: "trace ?s' = trace s2 @ ys"
    "filter is_tone ys
            = (if ?t then (if alert_active s2 then [] else [PlayBeep])
               else if alert_active s2 \<and> \<not> accident_detected s2 then [StopBeep] else [])"
    "filter is_drowsiness_email ys
            = (if ?t \<and> alert_active s2 \<and> beep_elapsed (in_now i) s2 \<and> \<not> drowsiness_email_sent s2
               then [SendEmail Drowsiness (last_gps_coords s2)] else [])"
    by blast
  have trig: "?t \<Longrightarrow> alert_active s2 = alert_active s \<and> beep_start_time s2 = beep_start_time s"
    using nt aa bs by auto
  have c1: "alert_active ?s' = (?t \<or> (alert_active s \<and> latched_in s i))"
    using aa acc by (auto simp: keyboard_fields alert_logic_alert)
  have c2: "beep_start_time ?s'
               = (if ?t then (if alert_active s then beep_start_time s else Some (in_now i))
                  else if latched_in s i then beep_start_time s else None)"
    using trig bs acc by (auto simp: keyboard_fields alert_logic_alert)
  have c3: "drowsiness_email_sent ?s'
               = (if ?t then alert_active s \<and> (drowsiness_email_sent s \<or> beep_elapsed (in_now i) s)
                  else drowsiness_email_sent s)"
    using trig des beep_elapsed_cong [of s2 s "in_now i"]
    by (auto simp: keyboard_fields alert_logic_alert)
  have c4: "drowsiness_emails ?s'
               = drowsiness_emails s
                 + (if ?t \<and> alert_active s \<and> beep_elapsed (in_now i) s
                       \<and> \<not> drowsiness_email_sent s then 1 else 0)"
    using trig des beep_elapsed_cong [of s2 s "in_now i"]
    by (auto simp: drowsiness_emails_def ys xs)
  have "filter is_tone (emitted s ?s') = filter is_tone xs @ filter is_tone ys"
    by (simp add: emitted_def ys(1) xs(1))
  also have "\<dots> = (if ?t then (if alert_active s then [] else [PlayBeep])
                  else if alert_active s \<and> \<not> latched_in s i then [StopBeep] else [])"
    using trig nt aa acc by (auto simp: ys(2) xs(3))
  finally have c5: "filter is_tone (emitted s ?s')
               = (if ?t then (if alert_active s then [] else [PlayBeep])
                  else if alert_active s \<and> \<not> latched_in s i then [StopBeep] else [])" .
  from tk ok c1 c2 c3 c4 c5 show ?thesis by blast
qed

lemma cleanup_drowsiness_emails: "drowsiness_emails (cleanup s) = drowsiness_emails s"
  by (simp add: cleanup_def Let_def stop_beep_alert_def deactivate_external_buzzer_def
        drowsiness_emails_def is_drowsiness_email_def)

lemma main_loop_episode:
  "calib_ok s \<Longrightarrow> all_triggered pf s is \<Longrightarrow>
   \<exists>s'. main_loop pf s is = Inr s'
        \<and> drowsiness_emails s \<le> drowsiness_emails s'
        \<and> drowsiness_emails s'
            \<le> drowsiness_emails s + (if alert_active s \<and> drowsiness_email_sent s then 0 else 1)"
proof (induction "is" arbitrary: s)
  case Nil
  then show ?case by simp
next
  case (Cons i "is")
  show ?case
  proof (cases "in_frame i")
    case False
    with Cons.prems(2) have "all_triggered pf s is" by simp
    from Cons.IH [OF Cons.prems(1) this] False show ?thesis by simp
  next
    case True
    with Cons.prems(2) have t: "trigger_of pf s i" by simp
    from tick_drowsiness [OF Cons.prems(1), of pf i] t
    obtain s1 where s1: "tick pf s i = Inr s1" and ok: "calib_ok s1"
      and a1: "alert_active s1"
      and d1: "drowsiness_email_sent s1
                 = (alert_active s \<and> (drowsiness_email_sent s \<or> beep_elapsed (in_now i) s))"
      and n1: "drowsiness_emails s1
                 = drowsiness_emails s
                   + (if alert_active s \<and> beep_elapsed (in_now i) s \<and> \<not> drowsiness_email_sent s
                      then 1 else 0)"
      by auto
    show ?thesis
    proof (cases "in_key i = CHR ''q''")
      case q: True
      from True q s1 n1 show ?thesis by (simp add: cleanup_drowsiness_emails)
    next
      case nq: False
      with True Cons.prems(2) s1 have "all_triggered pf s1 is" by simp
      from Cons.IH [OF ok this]
      obtain s' where s': "main_loop pf s1 is = Inr s'"
        and lo: "drowsiness_emails s1 \<le> drowsiness_emails s'"
        and hi: "drowsiness_emails s'
                  \<le> drowsiness_emails s1 + (if alert_active s1 \<and> drowsiness_email_sent s1 then 0 else 1)"
        by blast
      from True nq s1 s' have "main_loop pf s (i # is) = Inr s'" by simp
      moreover from lo n1 have "drowsiness_emails s \<le> drowsiness_emails s'" by simp
      moreover from hi a1 d1 n1
      have "drowsiness_emails s'
              \<le> drowsiness_emails s + (if alert_active s \<and> drowsiness_email_sent s then 0 else 1)"
        by (auto split: if_splits)
      ultimately show ?thesis by blast
    qed
  qed
qed

text \<open>
  Claim C4. At most one drowsiness notification per episode. An iteration sends the
  notification exactly when \<open>trigger_alert\<close> is true, the alert is active, six seconds
  have passed since its start and none was sent in this episode; it then sets
  \<open>drowsiness_email_sent\<close>, which only the start of a new episode (trigger true while the
  alert is inactive) clears, and the alert becomes inactive only in an iteration whose
  trigger is false. Hence a run in which the trigger stays true sends at most one
  notification, and none once the flag is set.
\<close>

theorem drowsiness_notification_once:
  assumes "calib_ok s"
  shows "(\<exists>s'. tick pf s i = Inr s'
            \<and> drowsiness_emails s'
                = drowsiness_emails s
                  + (if trigger_of pf s i \<and> alert_active s \<and> beep_elapsed (in_now i) s
                        \<and> \<not> drowsiness_email_sent s then 1 else 0)
            \<and> (drowsiness_emails s' \<noteq> drowsiness_emails s
                 \<longrightarrow> trigger_of pf s i \<and> alert_active s \<and> \<not> drowsiness_email_sent s
                     \<and> drowsiness_email_sent s')
            \<and> (drowsiness_email_sent s \<and> \<not> drowsiness_email_sent s'
                 \<longrightarrow> trigger_of pf s i \<and> \<not> alert_active s)
            \<and> (alert_active s \<and> \<not> alert_active s' \<longrightarrow> \<not> trigger_of pf s i))
         \<and> (all_triggered pf s ins
             \<longrightarrow> (\<exists>s'. main_loop pf s ins = Inr s'
                       \<and> drowsiness_emails s' \<le> drowsiness_emails s + 1
                       \<and> (alert_active s \<and> drowsiness_email_sent s
                            \<longrightarrow> drowsiness_emails s' = drowsiness_emails s)))"
proof (intro conjI impI)
  from tick_drowsiness [OF assms, of pf i]
  obtain s' where tk: "tick pf s i = Inr s'"
    and a: "alert_active s' = (trigger_of pf s i \<or> (alert_active s \<and> latched_in s i))"
    and d: "drowsiness_email_sent s'
               = (if trigger_of pf s i
                  then alert_active s \<and> (drowsiness_email_sent s \<or> beep_elapsed (in_now i) s)
                  else drowsiness_email_sent s)"
    and n: "drowsiness_emails s'
               = drowsiness_emails s
                 + (if trigger_of pf s i \<and> alert_active s \<and> beep_elapsed (in_now i) s
                       \<and> \<not> drowsiness_email_sent s then 1 else 0)"
    by blast
  from n d have c2: "drowsiness_emails s' \<noteq> drowsiness_emails s
                 \<longrightarrow> trigger_of pf s i \<and> alert_active s \<and> \<not> drowsiness_email_sent s
                     \<and> drowsiness_email_sent s'"
    by (auto split: if_splits)
  from d have c3: "drowsiness_email_sent s \<and> \<not> drowsiness_email_sent s'
                 \<longrightarrow> trigger_of pf s i \<and> \<not> alert_active s"
    by (auto split: if_splits)
  from a have c4: "alert_active s \<and> \<not> alert_active s' \<longrightarrow> \<not> trigger_of pf s i" by simp
  from tk n c2 c3 c4
  show "\<exists>s'. tick pf s i = Inr s'
            \<and> drowsiness_emails s'
                = drowsiness_emails s
                  + (if trigger_of pf s i \<and> alert_active s \<and> beep_elapsed (in_now i) s
                        \<and> \<not> drowsiness_email_sent s then 1 else 0)
            \<and> (drowsiness_emails s' \<noteq> drowsiness_emails s
                 \<longrightarrow> trigger_of pf s i \<and> alert_active s \<and> \<not> drowsiness_email_sent s
                     \<and> drowsiness_email_sent s')
            \<and> (drowsiness_email_sent s \<and> \<not> drowsiness_email_sent s'
                 \<longrightarrow> trigger_of pf s i \<and> \<not> alert_active s)
            \<and> (alert_active s \<and> \<not> alert_active s' \<longrightarrow> \<not> trigger_of pf s i)"
    by blast
next
  assume "all_triggered pf s ins"
  from main_loop_episode [OF assms this]
  obtain s' where "main_loop pf s ins = Inr s'"
    and "drowsiness_emails s \<le> drowsiness_emails s'"
    and "drowsiness_emails s'
            \<le> drowsiness_emails s + (if alert_active s \<and> drowsiness_email_sent s then 0 else 1)"
    by blast
  then show "\<exists>s'. main_loop pf s ins = Inr s'
                       \<and> drowsiness_emails s' \<le> drowsiness_emails s + 1
                       \<and> (alert_active s \<and> drowsiness_email_sent s
                            \<longrightarrow> drowsiness_emails s' = drowsiness_emails s)"
    by (auto split: if_splits)
qed

text \<open>
  An episode from its first iteration: tone at time 100, buzzer and the one notification at
  107, nothing more at 110 and 120; and an iteration with open eyes that ends an episode.
\<close>

theorem drowsiness_notification_once_witness:
  "calib_ok nineteen_closed
   \<and> all_triggered decimal_float nineteen_closed
        [closed_eyes 100, closed_eyes 103, closed_eyes 107, closed_eyes 110]
   \<and> (case main_loop decimal_float nineteen_closed
              [closed_eyes 100, closed_eyes 103, closed_eyes 107, closed_eyes 110] of
         Inl e \<Rightarrow> False
       | Inr s' \<Rightarrow>
           drowsiness_emails s' \<le> 1
           \<and> trace s' = [PlayBeep, BuzzerOn, SendEmail Drowsiness \<lparr>lat = None, lon = None\<rparr>])
   \<and> calib_ok alerting \<and> drowsiness_emails alerting = 0
   \<and> (\<exists>s'. tick decimal_float alerting (closed_eyes 107) = Inr s'
          \<and> drowsiness_emails s' = 1 \<and> drowsiness_email_sent s')
   \<and> (\<exists>s'. tick decimal_float alerting (open_eyes 101) = Inr s' \<and> \<not> alert_active s')
   \<and> \<not> trigger_of decimal_float alerting (open_eyes 101)
   \<and> calib_ok escalated \<and> alert_active escalated \<and> drowsiness_email_sent escalated
   \<and> drowsiness_emails escalated = 1
   \<and> all_triggered decimal_float escalated [closed_eyes 110, closed_eyes 120]
   \<and> (\<exists>s'. main_loop decimal_float escalated [closed_eyes 110, closed_eyes 120] = Inr s'
          \<and> drowsiness_emails s' = 1)"
proof -
  note ok = calib_ok_examples(1)
  have tr: "all_triggered decimal_float nineteen_closed
              [closed_eyes 100, closed_eyes 103, closed_eyes 107, closed_eyes 110]"
    by code_simp
  have z: "drowsiness_emails nineteen_closed = 0"
    by (simp add: drowsiness_emails_def nineteen_closed_def init_state_def)
  have ev: "(case main_loop decimal_float nineteen_closed
                [closed_eyes 100, closed_eyes 103, closed_eyes 107, closed_eyes 110] of
              Inl e \<Rightarrow> False
            | Inr s' \<Rightarrow>
                trace s' = [PlayBeep, BuzzerOn, SendEmail Drowsiness \<lparr>lat = None, lon = None\<rparr>])"
    by code_simp
  from drowsiness_notification_once [OF ok, where pf = decimal_float
      and ins = "[closed_eyes 100, closed_eyes 103, closed_eyes 107, closed_eyes 110]",
      THEN conjunct2] tr
  obtain s' where "main_loop decimal_float nineteen_closed
              [closed_eyes 100, closed_eyes 103, closed_eyes 107, closed_eyes 110] = Inr s'"
    and "drowsiness_emails s' \<le> drowsiness_emails nineteen_closed + 1"
    by blast
  with z ev have c1: "(case main_loop decimal_float nineteen_closed
              [closed_eyes 100, closed_eyes 103, closed_eyes 107, closed_eyes 110] of
         Inl e \<Rightarrow> False
       | Inr s' \<Rightarrow>
           drowsiness_emails s' \<le> 1
           \<and> trace s' = [PlayBeep, BuzzerOn, SendEmail Drowsiness \<lparr>lat = None, lon = None\<rparr>])"
    by simp
  have a: "drowsiness_emails alerting = 0" "alert_active alerting"
    "\<not> drowsiness_email_sent alerting"
    by (simp_all add: alerting_def drowsiness_emails_def is_drowsiness_email_def
          nineteen_closed_def init_state_def)
  have a7: "trigger_of decimal_float alerting (closed_eyes 107)"
    "beep_elapsed (in_now (closed_eyes 107)) alerting"
    by code_simp+
  from drowsiness_notification_once [OF calib_ok_examples(3), where pf = decimal_float
      and i = "closed_eyes 107", THEN conjunct1] a a7
  have c2: "\<exists>s'. tick decimal_float alerting (closed_eyes 107) = Inr s'
          \<and> drowsiness_emails s' = 1 \<and> drowsiness_email_sent s'"
    by auto
  have a1c: "(case tick decimal_float alerting (open_eyes 101) of
                Inl e \<Rightarrow> False | Inr s' \<Rightarrow> \<not> alert_active s')"
    by code_simp
  from drowsiness_notification_once [OF calib_ok_examples(3), where pf = decimal_float
      and i = "open_eyes 101", THEN conjunct1]
  obtain s1 where s1: "tick decimal_float alerting (open_eyes 101) = Inr s1"
    and imp: "alert_active alerting \<and> \<not> alert_active s1
                \<longrightarrow> \<not> trigger_of decimal_float alerting (open_eyes 101)"
    by blast
  from a1c s1 have n1: "\<not> alert_active s1" by simp
  with s1 have a1: "\<exists>s'. tick decimal_float alerting (open_eyes 101) = Inr s' \<and> \<not> alert_active s'"
    by blast
  from imp a(2) n1 have c3: "\<not> trigger_of decimal_float alerting (open_eyes 101)" by blast
  have e: "alert_active escalated" "drowsiness_email_sent escalated"
    "drowsiness_emails escalated = 1"
    by (simp_all add: escalated_def alerting_def drowsiness_emails_def is_drowsiness_email_def)
  have etr: "all_triggered decimal_float escalated [closed_eyes 110, closed_eyes 120]"
    by code_simp
  from drowsiness_notification_once [OF calib_ok_examples(4), where pf = decimal_float
      and ins = "[closed_eyes 110, closed_eyes 120]", THEN conjunct2] etr e
  have c4: "\<exists>s'. main_loop decimal_float escalated [closed_eyes 110, closed_eyes 120] = Inr s'
          \<and> drowsiness_emails s' = 1"
    by auto
  from ok tr c1 calib_ok_examples(3) a(1) c2 a1 c3 calib_ok_examples(4) e etr c4
  show ?thesis by blast
qed

subsection \<open>De-escalation\<close>

text \<open>
  Claim C5, as stated, fails: with the alert active and the accident latch set, an iteration
  whose trigger is false leaves the alert active, keeps the start time 100 and issues no
  command at all, so the tone is not stopped.
\<close>

theorem deescalation_counterexample:
  "\<not> trigger_of decimal_float alerting_latched (open_eyes 102)
   \<and> tick decimal_float alerting_latched (open_eyes 102)
       = Inr (alerting_latched\<lparr>COUNTER := 0, calib_count := 22\<rparr>)
   \<and> alert_active (alerting_latched\<lparr>COUNTER := 0, calib_count := 22\<rparr>)
   \<and> beep_start_time (alerting_latched\<lparr>COUNTER := 0, calib_count := 22\<rparr>) = Some 100
   \<and> emitted alerting_latched (alerting_latched\<lparr>COUNTER := 0, calib_count := 22\<rparr>) = []"
  by code_simp

text \<open>
  Claim C5, amended. In an iteration whose trigger is false and in which the accident latch
  is not set, the concern returns to Inactive: the alert state and the start time are
  cleared, and the tone is stopped if the alert was active. While the latch is set, a false
  trigger leaves the alert state and the start time as they are, issues no tone command, and
  (unless \<open>r\<close> is pressed) leaves an active buzzer on. A trigger while the alert is inactive
  starts a fresh episode: tone started, start time now, notification flag cleared.
\<close>

theorem deescalation_unless_latched:
  assumes "calib_ok s"
  shows "\<exists>s'. tick pf s i = Inr s'
           \<and> (\<not> trigger_of pf s i \<and> \<not> latched_in s i
                \<longrightarrow> \<not> alert_active s' \<and> beep_start_time s' = None
                    \<and> filter is_tone (emitted s s') = (if alert_active s then [StopBeep] else []))
           \<and> (\<not> trigger_of pf s i \<and> latched_in s i
                \<longrightarrow> alert_active s' = alert_active s \<and> beep_start_time s' = beep_start_time s
                    \<and> filter is_tone (emitted s s') = []
                    \<and> (accident_detected s \<and> buzzer_active s \<and> in_key i \<noteq> CHR ''r''
                         \<longrightarrow> buzzer_active s'))
           \<and> (trigger_of pf s i \<and> \<not> alert_active s
                \<longrightarrow> alert_active s' \<and> beep_start_time s' = Some (in_now i)
                    \<and> \<not> drowsiness_email_sent s'
                    \<and> filter is_tone (emitted s s') = [PlayBeep])"
proof -
  from tick_drowsiness [OF assms, of pf i]
  obtain s' where tk: "tick pf s i = Inr s'"
    and a: "alert_active s' = (trigger_of pf s i \<or> (alert_active s \<and> latched_in s i))"
    and b: "beep_start_time s'
               = (if trigger_of pf s i
                  then (if alert_active s then beep_start_time s else Some (in_now i))
                  else if latched_in s i then beep_start_time s else None)"
    and d: "drowsiness_email_sent s'
               = (if trigger_of pf s i
                  then alert_active s \<and> (drowsiness_email_sent s \<or> beep_elapsed (in_now i) s)
                  else drowsiness_email_sent s)"
    and t: "filter is_tone (emitted s s')
               = (if trigger_of pf s i then (if alert_active s then [] else [PlayBeep])
                  else if alert_active s \<and> \<not> latched_in s i then [StopBeep] else [])"
    by blast
  have bz: "accident_detected s \<and> buzzer_active s \<and> in_key i \<noteq> CHR ''r'' \<longrightarrow> buzzer_active s'"
    using tick_buzzer_latched [OF assms, of i pf] tk by auto
  from a b t have c1: "\<not> trigger_of pf s i \<and> \<not> latched_in s i
                \<longrightarrow> \<not> alert_active s' \<and> beep_start_time s' = None
                    \<and> filter is_tone (emitted s s') = (if alert_active s then [StopBeep] else [])"
    by simp
  from a b t bz have c2: "\<not> trigger_of pf s i \<and> latched_in s i
                \<longrightarrow> alert_active s' = alert_active s \<and> beep_start_time s' = beep_start_time s
                    \<and> filter is_tone (emitted s s') = []
                    \<and> (accident_detected s \<and> buzzer_active s \<and> in_key i \<noteq> CHR ''r''
                         \<longrightarrow> buzzer_active s')"
    by simp
  from a b d t have c3: "trigger_of pf s i \<and> \<not> alert_active s
                \<longrightarrow> alert_active s' \<and> beep_start_time s' = Some (in_now i)
                    \<and> \<not> drowsiness_email_sent s'
                    \<and> filter is_tone (emitted s s') = [PlayBeep]"
    by simp
  from tk c1 c2 c3 show ?thesis by blast
qed

text \<open>
  An episode ends in the iteration after its start; one does not end because the latch is
  set; and one starts at time 100.
\<close>

theorem deescalation_unless_latched_witness:
  "calib_ok alerting \<and> \<not> trigger_of decimal_float alerting (open_eyes 101)
   \<and> \<not> latched_in alerting (open_eyes 101)
   \<and> (\<exists>s'. tick decimal_float alerting (open_eyes 101) = Inr s'
          \<and> \<not> alert_active s' \<and> beep_start_time s' = None
          \<and> filter is_tone (emitted alerting s') = [StopBeep])
   \<and> calib_ok alerting_latched \<and> \<not> trigger_of decimal_float alerting_latched (open_eyes 102)
   \<and> latched_in alerting_latched (open_eyes 102)
   \<and> (\<exists>s'. tick decimal_float alerting_latched (open_eyes 102) = Inr s'
          \<and> alert_active s' \<and> beep_start_time s' = Some 100
          \<and> filter is_tone (emitted alerting_latched s') = [] \<and> buzzer_active s')
   \<and> calib_ok nineteen_closed \<and> trigger_of decimal_float nineteen_closed (closed_eyes 100)
   \<and> \<not> alert_active nineteen_closed
   \<and> (\<exists>s'. tick decimal_float nineteen_closed (closed_eyes 100) = Inr s'
          \<and> alert_active s' \<and> beep_start_time s' = Some 100 \<and> \<not> drowsiness_email_sent s'
          \<and> filter is_tone (emitted nineteen_closed s') = [PlayBeep])"
proof -
  have h1: "\<not> trigger_of decimal_float alerting (open_eyes 101)"
    "\<not> latched_in alerting (open_eyes 101)" "alert_active alerting"
    by code_simp+
  from deescalation_unless_latched [OF calib_ok_examples(3), of decimal_float "open_eyes 101"] h1
  have c1: "\<exists>s'. tick decimal_float alerting (open_eyes 101) = Inr s'
          \<and> \<not> alert_active s' \<and> beep_start_time s' = None
          \<and> filter is_tone (emitted alerting s') = [StopBeep]"
    by auto
  have h2: "\<not> trigger_of decimal_float alerting_latched (open_eyes 102)"
    "latched_in alerting_latched (open_eyes 102)"
    "accident_detected alerting_latched" "buzzer_active alerting_latched"
    "in_key (open_eyes 102) \<noteq> CHR ''r''"
    "alert_active alerting_latched" "beep_start_time alerting_latched = Some 100"
    by code_simp+
  from deescalation_unless_latched [OF calib_ok_examples(5), of decimal_float "open_eyes 102"] h2
  have c2: "\<exists>s'. tick decimal_float alerting_latched (open_eyes 102) = Inr s'
          \<and> alert_active s' \<and> beep_start_time s' = Some 100
          \<and> filter is_tone (emitted alerting_latched s') = [] \<and> buzzer_active s'"
    by auto
  have h3: "trigger_of decimal_float nineteen_closed (closed_eyes 100)"
    "\<not> alert_active nineteen_closed" "in_now (closed_eyes 100) = 100"
    by code_simp+
  from deescalation_unless_latched [OF calib_ok_examples(1), of decimal_float "closed_eyes 100"] h3
  have c3: "\<exists>s'. tick decimal_float nineteen_closed (closed_eyes 100) = Inr s'
          \<and> alert_active s' \<and> beep_start_time s' = Some 100 \<and> \<not> drowsiness_email_sent s'
          \<and> filter is_tone (emitted nineteen_closed s') = [PlayBeep]"
    by auto
  from calib_ok_examples(1,3,5) h1(1,2) c1 h2(1,2) c2 h3(1,2) c3 show ?thesis by blast
qed

subsection \<open>The shared buzzer\<close>

text \<open>
  Claim C1 against the code. Gas is detected, the sobriety test fails (one buzzer
  activation, one notification), and in the next iteration, with a face and open eyes, the
  alert logic switches the buzzer off although \<open>alcohol_test_failed\<close> is still set and no
  reset was given.
\<close>

theorem buzzer_silenced_after_failed_test:
  "main_loop decimal_float init_state
     [gas_input [''apple'', ''banana'', ''computer'', ''elephant''],
      speak_input (Heard ''apple banana'')]
   = Inr (init_state\<lparr>alcohol_test_failed := True, buzzer_active := True,
           test_text := ''apple banana computer elephant'',
           trace := [BuzzerOn, SendEmail AlcoholFailed \<lparr>lat = None, lon = None\<rparr>]\<rparr>)
   \<and> main_loop decimal_float init_state
     [gas_input [''apple'', ''banana'', ''computer'', ''elephant''],
      speak_input (Heard ''apple banana''), open_eyes 3]
   = Inr (init_state\<lparr>alcohol_test_failed := True, buzzer_active := False,
           test_text := ''apple banana computer elephant'',
           lip_hist := [0.1], calib_base := Some 0.1, calib_count := 1,
           trace := [BuzzerOn, SendEmail AlcoholFailed \<lparr>lat = None, lon = None\<rparr>, BuzzerOff]\<rparr>)
   \<and> main_loop decimal_float init_state
     [gas_input [''apple'', ''banana'', ''computer'', ''elephant''],
      speak_input (Heard ''apple banana''), quiet_input]
   = Inr (init_state\<lparr>alcohol_test_failed := True, buzzer_active := False,
           test_text := ''apple banana computer elephant'',
           trace := [BuzzerOn, SendEmail AlcoholFailed \<lparr>lat = None, lon = None\<rparr>, BuzzerOff]\<rparr>)"
  by code_simp

subsection \<open>The eye-closure debounce\<close>









subsection \<open>The smoothing window\<close>

lemma last_n_last_n: "last_n n (last_n n xs @ ys) = last_n n (xs @ ys)"
proof (cases "n \<le> length xs")
  case True
  then have "length xs + length ys - n = (length xs - n) + length ys" by simp
  moreover from True have "length xs - (length xs - n) = n" by simp
  ultimately show ?thesis
    using True by (simp add: last_n_def add.commute)
next
  case False
  then show ?thesis by (simp add: last_n_def)
qed

lemma push_mar_last_n:
  assumes "length h \<le> MAR_SMOOTH_WIN"
  shows "push_mar h m = last_n MAR_SMOOTH_WIN (h @ [m])"
proof (cases "length h = MAR_SMOOTH_WIN")
  case True
  then have "h \<noteq> []" by (auto simp: MAR_SMOOTH_WIN_def)
  then obtain a t where h: "h = a # t" by (cases h) auto
  with True show ?thesis by (simp add: push_mar_def last_n_def Let_def)
next
  case False
  with assms have "length h < MAR_SMOOTH_WIN" by simp
  then show ?thesis by (simp add: push_mar_def last_n_def Let_def)
qed

lemma length_push_mar: "length h \<le> MAR_SMOOTH_WIN \<Longrightarrow> length (push_mar h m) \<le> MAR_SMOOTH_WIN"
  by (auto simp: push_mar_def Let_def)

lemma foldl_push_mar_last_n:
  "length h \<le> MAR_SMOOTH_WIN \<Longrightarrow> foldl push_mar h ms = last_n MAR_SMOOTH_WIN (h @ ms)"
proof (induction ms arbitrary: h)
  case Nil
  then show ?case by (simp add: last_n_def)
next
  case (Cons m ms)
  from Cons.prems have "length (push_mar h m) \<le> MAR_SMOOTH_WIN" by (rule length_push_mar)
  from Cons.IH [OF this] have "foldl push_mar (push_mar h m) ms = last_n MAR_SMOOTH_WIN (push_mar h m @ ms)" .
  also have "\<dots> = last_n MAR_SMOOTH_WIN (last_n MAR_SMOOTH_WIN (h @ [m]) @ ms)"
    using Cons.prems by (simp add: push_mar_last_n)
  also have "\<dots> = last_n MAR_SMOOTH_WIN ((h @ [m]) @ ms)" by (rule last_n_last_n)
  finally show ?case by simp
qed

subsection \<open>Calibration and the yawn test\<close>





subsection \<open>Several faces in one frame\<close>

text \<open>
  Claim C10. The loop body runs once per detected face: after an iteration with \<open>N\<close> faces
  the calibration count has advanced by \<open>N\<close> (up to the 30 samples), the window has taken
  the \<open>N\<close> mouth ratios in order, and when all \<open>N\<close> faces have an EAR below 0.25 the
  counter has advanced by \<open>N\<close> and the drowsiness trigger fires as soon as the counter
  reaches 20, that is after fewer than 20 frames when \<open>N > 1\<close>.
\<close>

theorem faces_processed_per_face:
  assumes "calib_ok s" "in_rects i \<noteq> []"
  shows "\<exists>s'. tick pf s i = Inr s'
           \<and> calib_count s'
               = (if calib_count s < CALIB_FRAMES
                  then min CALIB_FRAMES (calib_count s + length (in_rects i)) else calib_count s)
           \<and> lip_hist s' = foldl push_mar (lip_hist s) (map snd (in_rects i))
           \<and> (length (lip_hist s) \<le> MAR_SMOOTH_WIN
                \<longrightarrow> lip_hist s' = last_n MAR_SMOOTH_WIN (lip_hist s @ map snd (in_rects i)))
           \<and> ((\<forall>f\<in>set (in_rects i). fst f < EYE_AR_THRESH)
                \<longrightarrow> COUNTER s' = COUNTER s + length (in_rects i)
                    \<and> (EYE_AR_CONSEC_FRAMES \<le> COUNTER s + length (in_rects i)
                         \<longrightarrow> trigger_of pf s i))"
proof -
  from tick_ok [OF assms(1), of i pf] assms(2)
  obtain s2 where tk: "tick pf s i = Inr (keyboard i (alert_logic (trigger_of pf s i) (in_now i) s2))"
    and p: "process_faces (sensors pf i s, False) (in_rects i) = Inr (s2, trigger_of pf s i)"
    by auto
  have "calib_ok (sensors pf i s) = calib_ok s"
    by (rule calib_ok_cong) (simp_all add: sensors_fields)
  with assms(1) have ok1: "calib_ok (sensors pf i s)" by simp
  let ?s' = "keyboard i (alert_logic (trigger_of pf s i) (in_now i) s2)"
  have c1: "calib_count ?s'
               = (if calib_count s < CALIB_FRAMES
                  then min CALIB_FRAMES (calib_count s + length (in_rects i)) else calib_count s)"
    using process_faces_calib_count [OF ok1 p]
    by (simp add: keyboard_fields alert_logic_fields sensors_fields)
  have c2: "lip_hist ?s' = foldl push_mar (lip_hist s) (map snd (in_rects i))"
    using process_faces_lip_hist [OF ok1 p]
    by (simp add: keyboard_fields alert_logic_fields sensors_fields)
  have c3: "length (lip_hist s) \<le> MAR_SMOOTH_WIN
                \<longrightarrow> lip_hist ?s' = last_n MAR_SMOOTH_WIN (lip_hist s @ map snd (in_rects i))"
    using c2 by (simp add: foldl_push_mar_last_n)
  have c4: "(\<forall>f\<in>set (in_rects i). fst f < EYE_AR_THRESH)
                \<longrightarrow> COUNTER ?s' = COUNTER s + length (in_rects i)
                    \<and> (EYE_AR_CONSEC_FRAMES \<le> COUNTER s + length (in_rects i)
                         \<longrightarrow> trigger_of pf s i)"
  proof (intro impI conjI)
    assume lo: "\<forall>f\<in>set (in_rects i). fst f < EYE_AR_THRESH"
    from process_faces_counter [OF ok1 p lo]
    show "COUNTER ?s' = COUNTER s + length (in_rects i)"
      by (simp add: keyboard_fields alert_logic_fields sensors_fields)
    assume "EYE_AR_CONSEC_FRAMES \<le> COUNTER s + length (in_rects i)"
    then have "EYE_AR_CONSEC_FRAMES \<le> COUNTER (sensors pf i s) + length (in_rects i)"
      by (simp add: sensors_fields)
    from process_faces_trigger_low [OF ok1 p lo assms(2) this]
    show "trigger_of pf s i" .
  qed
  from tk c1 c2 c3 c4 show ?thesis by blast
qed

text \<open>
  With two faces with closed eyes in every frame, the counter is 18 after nine frames and
  the drowsiness trigger fires in the tenth frame; calibration has then seen twenty samples.
\<close>

theorem faces_processed_per_face_witness:
  "calib_ok eighteen_closed \<and> in_rects two_closed \<noteq> []
   \<and> main_loop decimal_float init_state (replicate 9 two_closed) = Inr eighteen_closed
   \<and> length (lip_hist eighteen_closed) \<le> MAR_SMOOTH_WIN
   \<and> map fst (in_rects two_closed) = [0.2, 0.2] \<and> 0.2 < EYE_AR_THRESH
   \<and> trigger_of decimal_float eighteen_closed two_closed
   \<and> (\<exists>s'. tick decimal_float eighteen_closed two_closed = Inr s'
          \<and> COUNTER s' = 20 \<and> calib_count s' = 20
          \<and> lip_hist s' = last_n MAR_SMOOTH_WIN (lip_hist eighteen_closed @ [0.1, 0.1]))"
proof -
  note ok = calib_ok_examples(2)
  have ne: "in_rects two_closed \<noteq> []"
    by (simp add: two_closed_def face_input_def)
  have r: "main_loop decimal_float init_state (replicate 9 two_closed) = Inr eighteen_closed"
    by code_simp
  have lo: "\<forall>f\<in>set (in_rects two_closed). fst f < EYE_AR_THRESH"
    by (simp add: two_closed_def face_input_def EYE_AR_THRESH_def)
  have ears: "map fst (in_rects two_closed) = [0.2, 0.2]" "0.2 < EYE_AR_THRESH"
    by (simp_all add: two_closed_def face_input_def EYE_AR_THRESH_def)
  have w: "length (lip_hist eighteen_closed) \<le> MAR_SMOOTH_WIN"
    by (simp add: eighteen_closed_def nineteen_closed_def MAR_SMOOTH_WIN_def)
  have h: "COUNTER eighteen_closed + length (in_rects two_closed) = 20"
    "calib_count eighteen_closed < CALIB_FRAMES"
    "min CALIB_FRAMES (calib_count eighteen_closed + length (in_rects two_closed)) = 20"
    "map snd (in_rects two_closed) = [0.1, 0.1]"
    by (simp_all add: two_closed_def face_input_def eighteen_closed_def nineteen_closed_def
          CALIB_FRAMES_def)
  from faces_processed_per_face [OF ok ne, of decimal_float] lo w h
  obtain s' where "tick decimal_float eighteen_closed two_closed = Inr s'"
    and "COUNTER s' = 20" "calib_count s' = 20"
    and "lip_hist s' = last_n MAR_SMOOTH_WIN (lip_hist eighteen_closed @ [0.1, 0.1])"
    and "EYE_AR_CONSEC_FRAMES \<le> 20 \<longrightarrow> trigger_of decimal_float eighteen_closed two_closed"
    by auto
  with ok ne r w ears show ?thesis by (auto simp: EYE_AR_CONSEC_FRAMES_def)
qed

end
